theory Spec2Isabelle
  imports Complex_Main
begin

section \<open>WRFlux: staggered-grid budget decomposition (wrflux/tools.py)\<close>

text \<open>
  A shallow embedding of the parts of \<open>wrflux/tools.py\<close> that decide the budget
  decomposition: the staggering primitives (\<open>stagger\<close>, \<open>post_stagger\<close>, \<open>destagger\<close>,
  \<open>diff\<close>), the budget-method parser (\<open>get_budget_method\<close>), the control flow of
  \<open>calc_tendencies\<close> and \<open>calc_tendencies_core\<close>, the tile partition
  (\<open>create_tiles\<close>) and the decomposition of the advective tendency (\<open>adv_tend\<close>).

  Conventions of the embedding.
  \<^item> A sample is a \<open>real option\<close>: \<open>None\<close> is the missing value (NaN) that xarray's
    \<open>shift\<close> and \<open>reindex\<close> fill in and that arithmetic propagates. Finite samples are
    exact reals: rounding, overflow and infinities are outside the model, and a division
    by zero gives \<open>None\<close>.
  \<^item> A labelled array is seen along the one axis an operation works on: the list of its
    samples along that axis, in coordinate order. All operations of the source act
    pointwise on the remaining axes. Coordinates are the positions in the list; the
    \<open>new_coord\<close> argument of the source is taken to be a coordinate of the right length
    with distinct labels, as the grid coordinates are.
  \<^item> An exception is a value of type \<open>error\<close> on the left of a sum.
\<close>

subsection \<open>Values, errors and Python helpers\<close>

datatype error = ValueError string | IndexError | KeyError string | TypeError

type_synonym val = "real option"
type_synonym field = "val list"
type_synonym darr = "string \<times> field"

definition ebind :: "error + 'a \<Rightarrow> ('a \<Rightarrow> error + 'b) \<Rightarrow> error + 'b" where
  "ebind m f = (case m of Inl e \<Rightarrow> Inl e | Inr x \<Rightarrow> f x)"

fun vadd :: "val \<Rightarrow> val \<Rightarrow> val" where
  "vadd (Some a) (Some b) = Some (a + b)"
| "vadd _ _ = None"

fun vsub :: "val \<Rightarrow> val \<Rightarrow> val" where
  "vsub (Some a) (Some b) = Some (a - b)"
| "vsub _ _ = None"

fun vmul :: "val \<Rightarrow> val \<Rightarrow> val" where
  "vmul (Some a) (Some b) = Some (a * b)"
| "vmul _ _ = None"

fun vdiv :: "val \<Rightarrow> val \<Rightarrow> val" where
  "vdiv (Some a) (Some b) = (if b = 0 then None else Some (a / b))"
| "vdiv _ _ = None"

fun vneg :: "val \<Rightarrow> val" where
  "vneg (Some a) = Some (- a)"
| "vneg None = None"

definition fadd :: "field \<Rightarrow> field \<Rightarrow> field" where
  "fadd xs ys = map2 vadd xs ys"

definition fsub :: "field \<Rightarrow> field \<Rightarrow> field" where
  "fsub xs ys = map2 vsub xs ys"

definition fscale :: "real \<Rightarrow> field \<Rightarrow> field" where
  "fscale c xs = map (vmul (Some c)) xs"

text \<open>Multiplication by a weight that is a scalar or an array along the same axis
  (\<open>FNM\<close>, \<open>FNP\<close>): the weight at position \<open>i\<close> is \<open>w i\<close>.\<close>

definition fweight :: "field \<Rightarrow> (nat \<Rightarrow> val) \<Rightarrow> field" where
  "fweight xs w = map (\<lambda>i. vmul (xs ! i) (w i)) [0..<length xs]"

text \<open>\<open>data.shift({dim: 1})\<close>, \<open>data.shift({dim: -1})\<close> and
  \<open>data.roll({dim: 1}, roll_coords=False)\<close>.\<close>

definition shift_up :: "field \<Rightarrow> field" where
  "shift_up xs = (if xs = [] then [] else None # butlast xs)"

definition shift_down :: "field \<Rightarrow> field" where
  "shift_down xs = (if xs = [] then [] else tl xs @ [None])"

definition roll :: "field \<Rightarrow> field" where
  "roll xs = (if xs = [] then [] else last xs # butlast xs)"

text \<open>Integer indexing \<open>data[{dim: i}]\<close> and item assignment: the position a Python
  index denotes in an axis of \<open>len\<close> points (negative indices count from the end), if
  there is one; an index out of range raises IndexError.\<close>

definition py_index :: "nat \<Rightarrow> int \<Rightarrow> nat option" where
  "py_index len i =
     (if 0 \<le> i \<and> i < int len then Some (nat i)
      else if i < 0 \<and> - i \<le> int len then Some (nat (int len + i))
      else None)"

definition isel :: "field \<Rightarrow> int \<Rightarrow> error + val" where
  "isel xs i = (case py_index (length xs) i of None \<Rightarrow> Inl IndexError | Some j \<Rightarrow> Inr (xs ! j))"

definition iset :: "field \<Rightarrow> int \<Rightarrow> val \<Rightarrow> error + field" where
  "iset xs i v =
     (case py_index (length xs) i of None \<Rightarrow> Inl IndexError | Some j \<Rightarrow> Inr (xs[j := v]))"

definition getitem :: "(string \<times> 'a) list \<Rightarrow> string \<Rightarrow> error + 'a" where
  "getitem d k = (case map_of d k of None \<Rightarrow> Inl (KeyError k) | Some v \<Rightarrow> Inr v)"

definition data_isel :: "field option \<Rightarrow> int \<Rightarrow> error + val" where
  "data_isel data i = (case data of None \<Rightarrow> Inl TypeError | Some xs \<Rightarrow> isel xs i)"

text \<open>\<open>s.find(sub)\<close>, \<open>sub in s\<close>, \<open>dim[:dim.index("_stag")]\<close>, \<open>sep.join(xs)\<close> and
  \<open>s.split(" ")\<close>.\<close>

fun str_find :: "string \<Rightarrow> string \<Rightarrow> nat option" where
  "str_find sub [] = (if sub = [] then Some 0 else None)"
| "str_find sub (c # cs) =
     (if take (length sub) (c # cs) = sub then Some 0
      else map_option Suc (str_find sub cs))"

definition str_contains :: "string \<Rightarrow> string \<Rightarrow> bool" where
  "str_contains sub s = (str_find sub s \<noteq> None)"

definition strip_stag :: "string \<Rightarrow> error + string" where
  "strip_stag dimn =
     (case str_find ''_stag'' dimn of
        None \<Rightarrow> Inl (ValueError ''substring not found'')
      | Some i \<Rightarrow> Inr (take i dimn))"

fun join :: "string \<Rightarrow> string list \<Rightarrow> string" where
  "join sep [] = []"
| "join sep [x] = x"
| "join sep (x # y # ys) = x @ sep @ join sep (y # ys)"

fun split_sp :: "string \<Rightarrow> string list" where
  "split_sp [] = [[]]"
| "split_sp (c # cs) =
     (if c = CHR '' '' then [] # split_sp cs
      else (case split_sp cs of [] \<Rightarrow> [[c]] | w # ws \<Rightarrow> (c # w) # ws))"

subsection \<open>Grid staggering algebra\<close>

text \<open>\<open>post_stagger\<close>: rename the dimension, assign the new coordinate (one point more
  than the data, the added last point missing after \<open>reindex\<close>) and fill the boundary
  values. \<open>interp_const\<close> is the keyword dictionary of extrapolation constants; the
  right-hand sides are evaluated left to right, as Python does.\<close>

definition post_stagger ::
  "field \<Rightarrow> string \<Rightarrow> bool \<Rightarrow> field option \<Rightarrow> bool \<Rightarrow> (string \<times> val) list \<Rightarrow> error + darr" where
  "post_stagger data_stag dimn rename data cyclic interp_const =
     (let dim_s = (if rename then dimn @ ''_stag'' else dimn);
          data_stag = data_stag @ [None]
      in if dimn = ''bottom_top'' then
           (if interp_const \<noteq> [] then
              ebind (getitem interp_const ''CF1'') (\<lambda>cf1.
              ebind (data_isel data 0) (\<lambda>d0.
              ebind (getitem interp_const ''CF2'') (\<lambda>cf2.
              ebind (data_isel data 1) (\<lambda>d1.
              ebind (getitem interp_const ''CF3'') (\<lambda>cf3.
              ebind (data_isel data 2) (\<lambda>d2.
              let data_stag = data_stag[0 := vadd (vadd (vmul cf1 d0) (vmul cf2 d1)) (vmul cf3 d2)]
              in
              ebind (getitem interp_const ''CFN'') (\<lambda>cfn.
              ebind (data_isel data (- 1)) (\<lambda>dn.
              ebind (getitem interp_const ''CFN1'') (\<lambda>cfn1.
              ebind (data_isel data (- 2)) (\<lambda>dn1.
              Inr (dim_s, data_stag[length data_stag - 1 :=
                                      vadd (vmul cfn dn) (vmul cfn1 dn1)])))))))))))
            else Inr (dim_s, data_stag))
         else if cyclic then Inr (dim_s, data_stag[length data_stag - 1 := data_stag ! 0])
         else Inr (dim_s, data_stag[0 := None]))"

definition stagger ::
  "field \<Rightarrow> string \<Rightarrow> (nat \<Rightarrow> val) \<Rightarrow> (nat \<Rightarrow> val) \<Rightarrow> bool \<Rightarrow> bool \<Rightarrow> (string \<times> val) list \<Rightarrow> error + darr" where
  "stagger data dimn FNM FNP rename cyclic interp_const =
     (let data_stag =
            (if dimn = ''bottom_top''
             then fadd (fweight data FNM) (fweight (shift_up data) FNP)
             else fscale (1 / 2) (fadd data (roll data)))
      in post_stagger data_stag dimn rename (Some data) cyclic interp_const)"

definition destagger :: "field \<Rightarrow> string \<Rightarrow> bool \<Rightarrow> error + darr" where
  "destagger data dimn rename =
     (let data = fscale (1 / 2) (fadd data (shift_down data));
          data = butlast data
      in if rename then ebind (strip_stag dimn) (\<lambda>new_dim. Inr (new_dim, data))
         else Inr (dimn, data))"

text \<open>The first four lines of \<open>diff\<close>: the shifted (or rolled) copy and the difference,
  before the boundary is dropped or filled.\<close>

definition diff_raw :: "field \<Rightarrow> string \<Rightarrow> bool \<Rightarrow> field" where
  "diff_raw data dimn cyclic =
     (let data_s =
            (if dimn \<in> set [''bottom_top'', ''z'', ''bottom_top_stag'', ''z_stag'', ''Time'']
                \<or> \<not> cyclic
             then shift_up data else roll data)
      in fsub data data_s)"

definition diff :: "field \<Rightarrow> string \<Rightarrow> bool \<Rightarrow> bool \<Rightarrow> error + darr" where
  "diff data dimn rename cyclic =
     (let out = diff_raw data dimn cyclic
      in if str_contains ''_stag'' dimn then
           (let out = drop 1 out
            in if rename \<and> dimn \<noteq> ''Time''
               then ebind (strip_stag dimn) (\<lambda>new_dim. Inr (new_dim, out))
               else Inr (dimn, out))
         else post_stagger out dimn rename None cyclic [])"

text \<open>The composition the inverse law speaks about: \<open>stagger\<close> with its default
  weights and no extrapolation constants, then \<open>destagger\<close> along the staggered
  dimension it returned.\<close>

definition destagger_stagger :: "field \<Rightarrow> string \<Rightarrow> bool \<Rightarrow> error + darr" where
  "destagger_stagger data dimn cyclic =
     ebind (stagger data dimn (\<lambda>i. Some (1 / 2)) (\<lambda>i. Some (1 / 2)) True cyclic [])
       (\<lambda>(dim_s, data_stag). destagger data_stag dim_s True)"

subsection \<open>Budget methods\<close>

definition budget_settings :: "string list" where
  "budget_settings = [''cartesian'', ''dz_out_x'', ''dz_out_z'', ''force_2nd_adv'']"

definition settings_short_names :: "(string \<times> string) list" where
  "settings_short_names = [(''2nd'', ''force_2nd_adv'')]"

definition outfiles :: "string list" where
  "outfiles = [''grid'', ''adv'', ''flux'', ''tend'', ''sources'', ''sgs'', ''sgsflux'', ''corr'']"

record config =
  cartesian :: bool
  dz_out_x :: bool
  dz_out_z :: bool
  force_2nd_adv :: bool

text \<open>The list of keys of a method string: empty for the empty string, else its
  space-separated parts, with abbreviations replaced by the settings they stand for.\<close>

definition replace_short :: "string \<Rightarrow> string" where
  "replace_short key =
     (case map_of settings_short_names key of Some long \<Rightarrow> long | None \<Rightarrow> key)"

definition budget_method_keys :: "string \<Rightarrow> string list" where
  "budget_method_keys budget_method =
     map replace_short (if budget_method = [] then [] else split_sp budget_method)"

definition get_budget_method :: "string \<Rightarrow> error + (config \<times> string)" where
  "get_budget_method budget_method =
     (let budget_method_list = budget_method_keys budget_method;
          budget_method = (if budget_method = [] then ''native'' else budget_method);
          undefined_keys = filter (\<lambda>key. key \<notin> set budget_settings) budget_method_list
      in if length undefined_keys > 0
         then Inl (ValueError (''Undefined keys: '' @ join '', '' undefined_keys))
         else Inr (\<lparr>cartesian = ''cartesian'' \<in> set budget_method_list,
                    dz_out_x = ''dz_out_x'' \<in> set budget_method_list,
                    dz_out_z = ''dz_out_z'' \<in> set budget_method_list,
                    force_2nd_adv = ''force_2nd_adv'' \<in> set budget_method_list\<rparr>,
                   budget_method))"

text \<open>\<open>budget_methods\<close> is a string or a list of strings; \<open>make_list\<close> wraps a string.
  The default of both entry points is the string \<open>"castesian"\<close>.\<close>

datatype str_or_list = Str string | Lst "string list"

fun make_list :: "str_or_list \<Rightarrow> string list" where
  "make_list (Str s) = [s]"
| "make_list (Lst l) = l"

definition default_budget_methods :: str_or_list where
  "default_budget_methods = Str ''castesian''"

subsection \<open>Control flow of \<open>calc_tendencies_core\<close> and \<open>calc_tendencies\<close>\<close>

text \<open>
  The data pipeline behind the control flow (loading, \<open>prepare\<close>, the tendency
  calculators, saving) is recorded as a trace of events in the order the source calls
  them; loading (with its check for a dimension left empty by the indexing) and the
  calculators are taken to succeed, so the errors of the model are the ones the control
  flow itself raises. \<open>existing\<close> lists the output files
  \<open>(var, outfile)\<close> present under the output path for the current averaging suffix.
\<close>

type_synonym slice = "int option \<times> int option"
type_synonym tile = "(string \<times> slice) list"
type_synonym cyc = "(string \<times> bool) list"

datatype event =
    LoadData
  | Prepare cyc
  | LoadPostproc string
  | CalcTendSources string cyc
  | TotalTendency string string bool cyc
  | AdvTend string string config cyc
  | CartesianCorrections string string bool cyc
  | SaveOutput string
  | RemoveFile string string
  | CreateTiles

record env =
  nproc :: nat
  rank :: nat
  existing :: "(string \<times> string) list"
  periodic_x :: int
  periodic_y :: int
  dims :: "(string \<times> nat) list"

record run_args =
  variables :: "string list"
  budget_methods :: str_or_list
  hor_avg :: bool
  avg_dims :: "string list option"
  skip_exist :: bool

text \<open>The loop over the budget methods of one variable (the body of
  \<open>for budget_method in budget_methods\<close>).\<close>

fun run_methods :: "cyc \<Rightarrow> string \<Rightarrow> string list \<Rightarrow> event list \<Rightarrow> event list \<times> error option" where
  "run_methods cyclic var [] tr = (tr, None)"
| "run_methods cyclic var (bm # bms) tr =
     (case get_budget_method bm of
        Inl e \<Rightarrow> (tr, Some e)
      | Inr (c, budget_method) \<Rightarrow>
          (let dz_out = (dz_out_x c \<or> dz_out_z c)
           in if dz_out \<and> \<not> cartesian c
              then (tr, Some (ValueError ''dz_out can only be used for Cartesian calculations!''))
              else if dz_out \<and> dz_out_x c \<and> dz_out_z c
              then (tr, Some (ValueError ''dz_out_x and dz_out_z cannot be used at the same time!''))
              else run_methods cyclic var bms
                     (tr @ [TotalTendency var budget_method dz_out cyclic,
                            AdvTend var budget_method c cyclic]
                         @ (if cartesian c
                            then [CartesianCorrections var budget_method dz_out cyclic]
                            else []))))"

definition output_exists :: "env \<Rightarrow> bool \<Rightarrow> string \<Rightarrow> bool" where
  "output_exists e cart var =
     list_all (\<lambda>outfile. (outfile = ''corr'' \<and> \<not> cart) \<or> (var, outfile) \<in> set (existing e))
       outfiles"

fun run_variables ::
  "env \<Rightarrow> bool \<Rightarrow> string list \<Rightarrow> bool \<Rightarrow> cyc \<Rightarrow> string list \<Rightarrow> event list \<Rightarrow> event list \<times> error option" where
  "run_variables e skip bms cart cyclic [] tr = (tr, None)"
| "run_variables e skip bms cart cyclic (var # vars) tr =
     (if skip \<and> output_exists e cart var
      then run_variables e skip bms cart cyclic vars (tr @ [LoadPostproc var])
      else (case run_methods cyclic var bms (tr @ [CalcTendSources var cyclic]) of
              (tr', Some err) \<Rightarrow> (tr', Some err)
            | (tr', None) \<Rightarrow>
                if bms = [] then (tr', Some (KeyError ''tend''))
                else run_variables e skip bms cart cyclic vars (tr' @ [SaveOutput var])))"

definition tile_cyclic :: "env \<Rightarrow> tile option \<Rightarrow> cyc" where
  "tile_cyclic e tile =
     (let cyclic = [(''x'', periodic_x e \<noteq> 0), (''y'', periodic_y e \<noteq> 0),
                    (''bottom_top'', False)]
      in case tile of
           None \<Rightarrow> cyclic
         | Some t \<Rightarrow> map (\<lambda>(d, c). (d, c \<and> d \<notin> set (map fst t))) cyclic)"

definition calc_tendencies_core :: "env \<Rightarrow> run_args \<Rightarrow> tile option \<Rightarrow> event list \<times> error option" where
  "calc_tendencies_core e a tile =
     (let cyclic = tile_cyclic e tile;
          bms = make_list (budget_methods a);
          cart = str_contains ''cartesian'' (join '' '' bms)
      in if hor_avg a \<and> avg_dims a = None then ([LoadData], Some TypeError)
         else run_variables e (skip_exist a) bms cart cyclic (variables a)
                [LoadData, Prepare cyclic])"


subsection \<open>Tiles\<close>

text \<open>\<open>np.arange(n)[::sz]\<close>: every \<open>sz\<close>-th index from 0 for a positive step, from
  the last index downwards for a negative one; a zero step raises.\<close>

definition arange_step :: "nat \<Rightarrow> int \<Rightarrow> error + int list" where
  "arange_step n sz =
     (if sz = 0 then Inl (ValueError ''slice step cannot be zero'')
      else if sz > 0
      then Inr (map (\<lambda>k. int k * sz) [0..<(n + nat sz - 1) div nat sz])
      else Inr (map (\<lambda>k. int n - 1 + int k * sz)
                  [0..<(n + nat (- sz) - 1) div nat (- sz)]))"

text \<open>The indexers of tile \<open>i\<close> of one chunking dimension (the body of
  \<open>for i in range(len(bounds))\<close>): one slice for the dimension and one for its
  staggered variant.\<close>

definition tile_iloc :: "string \<Rightarrow> int list \<Rightarrow> nat \<Rightarrow> tile" where
  "tile_iloc dimn bounds i =
     map (\<lambda>stag.
            let dim_s = (if stag then dimn @ ''_stag'' else dimn);
                ext = (if stag then 2 else 1);
                start = (if i = 0 then None else Some (bounds ! i - 1));
                stop = (if i = length bounds - 1 then None
                        else Some (bounds ! (i + 1) + ext))
            in (dim_s, (start, stop)))
         [False, True]"

definition one_chunk_message :: "string \<Rightarrow> string" where
  "one_chunk_message dimn =
     ''Chunking in '' @ dimn @ ''-direction leads to one chunk only. '' @
     ''Deleting '' @ dimn @ '' from chunks dictionary.''"

text \<open>The loop over the chunking dimensions. The state is the list of per-dimension
  tile lists, the \<open>chunks\<close> dictionary (the caller's, changed in place) and the printed
  lines.\<close>

fun create_tiles_loop ::
  "(string \<times> nat) list \<Rightarrow> (string \<times> int) list \<Rightarrow>
   tile list list \<times> (string \<times> int) list \<times> string list \<Rightarrow>
   error + tile list list \<times> (string \<times> int) list \<times> string list" where
  "create_tiles_loop ds [] st = Inr st"
| "create_tiles_loop ds ((dimn, sz) # rest) (tiles, chunks, printed) =
     (case map_of ds dimn of
        None \<Rightarrow> Inl (ValueError (''Chunking dimension '' @ dimn @ '' not in data!''))
      | Some n \<Rightarrow>
          (case arange_step n sz of
             Inl err \<Rightarrow> Inl err
           | Inr bounds \<Rightarrow>
               if length bounds = 1
               then create_tiles_loop ds rest
                      (tiles, filter (\<lambda>(k, v). k \<noteq> dimn) chunks,
                       printed @ [one_chunk_message dimn])
               else create_tiles_loop ds rest
                      (tiles @ [map (tile_iloc dimn bounds) [0..<length bounds]],
                       chunks, printed)))"

definition create_tiles ::
  "(string \<times> nat) list \<Rightarrow> (string \<times> int) list \<Rightarrow>
   error + tile list list \<times> (string \<times> int) list \<times> string list" where
  "create_tiles ds chunks =
     (case create_tiles_loop ds chunks ([], chunks, [''Create tasks'']) of
        Inl err \<Rightarrow> Inl err
      | Inr (tiles, chunks', printed) \<Rightarrow> Inr (product_lists tiles, chunks', printed))"

text \<open>\<open>all_tiles[rank::nproc]\<close> and the loop over the tiles of this process.\<close>

definition every_nth :: "nat \<Rightarrow> nat \<Rightarrow> 'a list \<Rightarrow> 'a list" where
  "every_nth r n xs =
     map (\<lambda>i. xs ! i) (filter (\<lambda>i. r \<le> i \<and> (i - r) mod n = 0) [0..<length xs])"

fun run_tiles :: "env \<Rightarrow> run_args \<Rightarrow> tile list list \<Rightarrow> event list \<Rightarrow> event list \<times> error option" where
  "run_tiles e a [] tr = (tr, None)"
| "run_tiles e a (t # ts) tr =
     (let tile = concat t;
          tile = (if tile = [] then None else Some tile)
      in case calc_tendencies_core e a tile of
           (tr', Some err) \<Rightarrow> (tr @ tr', Some err)
         | (tr', None) \<Rightarrow> run_tiles e a ts (tr @ tr'))"

text \<open>The check for existing output at the start of \<open>calc_tendencies\<close>: the files
  it looks for, whether all of them exist, and the files process 0 deletes when
  \<open>skip_exist\<close> is off.\<close>

definition methods_cartesian :: "run_args \<Rightarrow> bool" where
  "methods_cartesian a = str_contains ''cartesian'' (join '' '' (make_list (budget_methods a)))"

definition needed_files :: "run_args \<Rightarrow> (string \<times> string) list" where
  "needed_files a =
     concat (map (\<lambda>outfile. if outfile = ''corr'' \<and> \<not> methods_cartesian a then []
                              else map (\<lambda>var. (var, outfile)) (variables a))
               outfiles)"

definition skip_all :: "env \<Rightarrow> run_args \<Rightarrow> bool" where
  "skip_all e a = (skip_exist a \<and> list_all (\<lambda>f. f \<in> set (existing e)) (needed_files a))"

definition removed_files :: "env \<Rightarrow> run_args \<Rightarrow> event list" where
  "removed_files e a =
     (if \<not> skip_exist a \<and> rank e = 0
      then map (\<lambda>(var, outfile). RemoveFile var outfile)
             (filter (\<lambda>f. f \<in> set (existing e)) (needed_files a))
      else [])"

definition calc_tendencies ::
  "env \<Rightarrow> run_args \<Rightarrow> (string \<times> int) list option \<Rightarrow> event list \<times> error option" where
  "calc_tendencies e a chunks =
     (if hor_avg a \<and> avg_dims a = None then ([], Some TypeError)
      else
        let removed = removed_files e a
        in if skip_all e a then (removed @ map LoadPostproc (variables a), None)
           else
             (case chunks of
                Some ch \<Rightarrow>
                  if list_ex (\<lambda>c. c \<notin> set [''x'', ''y'']) (map fst ch)
                  then (removed,
                        Some (ValueError ''Chunking is only allowed in the x and y-directions!''))
                  else if hor_avg a \<and> (case avg_dims a of None \<Rightarrow> False
                            | Some ad \<Rightarrow> list_ex (\<lambda>d. d \<in> set ad) (map fst ch))
                  then (removed,
                        Some (ValueError ''Averaging dimensions cannot be used for chunking!''))
                  else
                    (case create_tiles (dims e) ch of
                       Inl err \<Rightarrow> (removed @ [CreateTiles], Some err)
                     | Inr (all_tiles, ch', printed) \<Rightarrow>
                         if nproc e = 0
                         then (removed @ [CreateTiles],
                               Some (ValueError ''slice step cannot be zero''))
                         else
                           (case run_tiles e a (every_nth (rank e) (nproc e) all_tiles)
                                   (removed @ [CreateTiles]) of
                              (tr, Some err) \<Rightarrow> (tr, Some err)
                            | (tr, None) \<Rightarrow>
                                (if rank e = 0 then tr @ map LoadPostproc (variables a)
                                 else tr, None)))
              | None \<Rightarrow>
                  if nproc e > 1
                  then (removed,
                        Some (ValueError
                          ''Number of processors > 1, but chunking is disabled (chunks=None)!''))
                  else (case calc_tendencies_core e a None of
                          (tr, r) \<Rightarrow> (removed @ tr, r))))"

text \<open>The cyclic dictionary an event was called with, and whether a budget method
  string selects a setting (the setting is one of its space-separated keys).\<close>

fun event_cyclic :: "event \<Rightarrow> cyc option" where
  "event_cyclic (Prepare c) = Some c"
| "event_cyclic (CalcTendSources v c) = Some c"
| "event_cyclic (TotalTendency v m dz c) = Some c"
| "event_cyclic (AdvTend v m cfg c) = Some c"
| "event_cyclic (CartesianCorrections v m dz c) = Some c"
| "event_cyclic ev = None"


subsection \<open>Advective tendency decomposition (\<open>adv_tend\<close>)\<close>

text \<open>
  \<open>adv_tend\<close> is embedded from the point where the total and the mean fluxes are
  built (\<open>fluxes = {"adv_r": tot_flux, "mean": mean_flux}\<close>) to its return. An array is
  seen along the vertical axis (a column), or is a scalar that broadcasts, as the
  \<open>0.\<close> the source assigns in the averaging directions. With
  \<open>arithmetic_join="exact"\<close> arithmetic on two columns of different length raises.
  Two operations act along the horizontal axes, which a column does not carry, and are
  parameters of the model: \<open>hdiv comp D flux\<close>, the horizontal flux divergence
  of direction \<open>D\<close> (the line \<open>adv_i[D] = -diff(fac * flux[D] / mf_flx, ...) * ...\<close>),
  and \<open>avg_xy\<close>, the horizontal average.
\<close>

datatype dir = X | Y | Z
datatype comp = adv_r | mean | trb_r
datatype arr = Scalar val | Col field

definition g :: real where
  "g = 981 / 100"

definition arr_op :: "(val \<Rightarrow> val \<Rightarrow> val) \<Rightarrow> arr \<Rightarrow> arr \<Rightarrow> error + arr" where
  "arr_op f a b =
     (case a of
        Scalar x \<Rightarrow> (case b of Scalar y \<Rightarrow> Inr (Scalar (f x y))
                              | Col ys \<Rightarrow> Inr (Col (map (f x) ys)))
      | Col xs \<Rightarrow> (case b of Scalar y \<Rightarrow> Inr (Col (map (\<lambda>x. f x y) xs))
                            | Col ys \<Rightarrow> if length xs = length ys then Inr (Col (map2 f xs ys))
                                        else Inl (ValueError ''indexes are not equal'')))"

fun arr_neg :: "arr \<Rightarrow> arr" where
  "arr_neg (Scalar x) = Scalar (vneg x)"
| "arr_neg (Col xs) = Col (map vneg xs)"

text \<open>\<open>diff(fz, dim, new_coord)\<close> with the defaults \<open>rename=True, cyclic=False\<close>, indexing
  and item assignment along the vertical axis; a scalar has no such axis.\<close>

fun arr_diff :: "arr \<Rightarrow> string \<Rightarrow> error + arr" where
  "arr_diff (Scalar x) dimn = Inl (ValueError ''dimension not found'')"
| "arr_diff (Col xs) dimn = ebind (diff xs dimn True False) (\<lambda>(new_dim, out). Inr (Col out))"

fun arr_isel :: "arr \<Rightarrow> int \<Rightarrow> error + val" where
  "arr_isel (Scalar x) i = Inl (ValueError ''dimension not found'')"
| "arr_isel (Col xs) i = isel xs i"

fun arr_iset :: "arr \<Rightarrow> int \<Rightarrow> val \<Rightarrow> error + arr" where
  "arr_iset (Scalar x) i v = Inl (ValueError ''dimension not found'')"
| "arr_iset (Col xs) i v = ebind (iset xs i v) (\<lambda>ys. Inr (Col ys))"

record grid =
  DN :: field
  DNW :: field
  MU_STAG_MEAN :: arr
  RHOD_STAG_MEAN :: arr

record adv_data =
  dat_mean :: "(string \<times> arr) list"
  tot_flux :: "dir \<Rightarrow> arr"
  mean_flux :: "dir \<Rightarrow> arr"
  rhod8z :: arr

text \<open>The vertical flux divergence of one component (\<open># vertical flux\<close> in the source),
  before the scaling with \<open>-g\<close> and the division by the dry air mass.\<close>

definition vertical_flux_tend :: "string \<Rightarrow> grid \<Rightarrow> arr \<Rightarrow> arr \<Rightarrow> error + arr" where
  "vertical_flux_tend VAR grd rhod8z_m flux_z =
     ebind (arr_op vmul rhod8z_m flux_z) (\<lambda>fz.
       if VAR = ''W'' then
         ebind (arr_diff fz ''bottom_top'') (\<lambda>d.
         ebind (arr_op vdiv (arr_neg d) (Col (DN grd))) (\<lambda>adv_z.
         ebind (arr_iset adv_z 0 (Some 0)) (\<lambda>adv_z.
         ebind (arr_isel fz (- 1)) (\<lambda>fz_top.
         ebind (isel (DN grd) (- 2)) (\<lambda>dn.
         arr_iset adv_z (- 1) (vdiv (vmul (Some 2) fz_top) dn))))))
       else
         ebind (arr_diff fz ''bottom_top_stag'') (\<lambda>d.
         arr_op vdiv (arr_neg d) (Col (DNW grd))))"

text \<open>The tendency of one component from its fluxes (the body of
  \<open>for comp, flux in fluxes.items()\<close>).\<close>

definition adv_i ::
  "(comp \<Rightarrow> dir \<Rightarrow> arr \<Rightarrow> arr) \<Rightarrow> (arr \<Rightarrow> arr) \<Rightarrow> adv_data \<Rightarrow> string \<Rightarrow> grid \<Rightarrow>
   bool \<Rightarrow> string list \<Rightarrow> bool \<Rightarrow> comp \<Rightarrow> (dir \<Rightarrow> arr) \<Rightarrow> error + (dir \<Rightarrow> arr)" where
  "adv_i hdiv avg_xy dat VAR grd havg adims dz_out cmp flux =
     (let rhod8z_m = (if (cmp = trb_r \<or> cmp = mean) \<and> havg
                      then avg_xy (rhod8z dat) else rhod8z dat);
          horizontal = (\<lambda>d D. if havg \<and> d \<in> set adims \<and> (cmp = trb_r \<or> cmp = mean)
                               then Scalar (Some 0) else hdiv cmp D (flux D));
          adv_x = horizontal ''x'' X;
          adv_y = horizontal ''y'' Y;
          norm = (\<lambda>D. if dz_out \<and> D \<noteq> Z then RHOD_STAG_MEAN grd else MU_STAG_MEAN grd)
      in ebind (vertical_flux_tend VAR grd rhod8z_m (flux Z)) (\<lambda>adv_z.
         ebind (arr_op vmul adv_z (Scalar (Some (- g)))) (\<lambda>adv_z.
         ebind (arr_op vdiv adv_x (norm X)) (\<lambda>adv_x.
         ebind (arr_op vdiv adv_y (norm Y)) (\<lambda>adv_y.
         ebind (arr_op vdiv adv_z (norm Z)) (\<lambda>adv_z.
         Inr (\<lambda>D. case D of X \<Rightarrow> adv_x | Y \<Rightarrow> adv_y | Z \<Rightarrow> adv_z)))))))"

text \<open>The explicit resolved turbulent fluxes, if all three are in the data (the
  \<open>try\<close> block; a KeyError gives \<open>trb_exp = False\<close>).\<close>

definition explicit_trb :: "(string \<times> arr) list \<Rightarrow> string \<Rightarrow> bool \<Rightarrow> (dir \<Rightarrow> arr) option" where
  "explicit_trb dm VAR cart =
     (let vels = (if cart then (''U'', ''V'', ''W'') else (''U'', ''V'', ''OMZN''));
          name = (\<lambda>vel. ''F'' @ VAR @ vel @ ''_TRB_MEAN'')
      in case map_of dm (name (fst vels)) of
           None \<Rightarrow> None
         | Some fx \<Rightarrow>
             (case map_of dm (name (fst (snd vels))) of
                None \<Rightarrow> None
              | Some fy \<Rightarrow>
                  (case map_of dm (name (snd (snd vels))) of
                     None \<Rightarrow> None
                   | Some fz \<Rightarrow> Some (\<lambda>D. case D of X \<Rightarrow> fx | Y \<Rightarrow> fy | Z \<Rightarrow> fz))))"

text \<open>\<open>str.upper\<close> on ASCII letters, and the data variable a direction key names.\<close>

definition upper_char :: "char \<Rightarrow> char" where
  "upper_char c =
     (case map_of (zip ''abcdefghijklmnopqrstuvwxyz'' ''ABCDEFGHIJKLMNOPQRSTUVWXYZ'') c of
        Some u \<Rightarrow> u | None \<Rightarrow> c)"

definition str_upper :: "string \<Rightarrow> string" where
  "str_upper s = map upper_char s"

definition dir_of_key :: "string \<Rightarrow> dir option" where
  "dir_of_key k =
     (if k = ''X'' then Some X else if k = ''Y'' then Some Y
      else if k = ''Z'' then Some Z else None)"

text \<open>One pass of the residual loop: the turbulent flux and the turbulent tendency of
  direction \<open>D\<close> are overwritten with total minus mean.\<close>

definition set_residual :: "(comp \<Rightarrow> dir \<Rightarrow> arr) \<Rightarrow> dir \<Rightarrow> error + (comp \<Rightarrow> dir \<Rightarrow> arr)" where
  "set_residual f D =
     ebind (arr_op vsub (f adv_r D) (f mean D))
       (\<lambda>r. Inr (\<lambda>c D'. if c = trb_r \<and> D' = D then r else f c D'))"

fun residuals ::
  "string list \<Rightarrow> (comp \<Rightarrow> dir \<Rightarrow> arr) \<times> (comp \<Rightarrow> dir \<Rightarrow> arr) \<Rightarrow>
   error + (comp \<Rightarrow> dir \<Rightarrow> arr) \<times> (comp \<Rightarrow> dir \<Rightarrow> arr)" where
  "residuals [] fa = Inr fa"
| "residuals (d # ds) (flux, adv) =
     (case dir_of_key d of
        None \<Rightarrow> Inl (KeyError d)
      | Some D \<Rightarrow>
          (case set_residual flux D of
             Inl err \<Rightarrow> Inl err
           | Inr flux' \<Rightarrow>
               (case set_residual adv D of
                  Inl err \<Rightarrow> Inl err
                | Inr adv' \<Rightarrow> residuals ds (flux', adv'))))"

text \<open>The tendencies of all components, the horizontal average of the total
  component, and the concatenation along \<open>comp\<close> (from \<open>adv = {}\<close> to
  \<open>flux["comp"] = list(fluxes.keys())\<close>); the turbulent component is present when the
  explicit fluxes are, and missing after \<open>reindex\<close> otherwise.\<close>

definition concat_comp ::
  "(dir \<Rightarrow> arr) \<Rightarrow> (dir \<Rightarrow> arr) \<Rightarrow> (dir \<Rightarrow> arr) option \<Rightarrow> comp \<Rightarrow> dir \<Rightarrow> arr" where
  "concat_comp a m t c =
     (case c of adv_r \<Rightarrow> a | mean \<Rightarrow> m
      | trb_r \<Rightarrow> (case t of Some x \<Rightarrow> x | None \<Rightarrow> (\<lambda>D. Scalar None)))"

definition adv_components ::
  "(comp \<Rightarrow> dir \<Rightarrow> arr \<Rightarrow> arr) \<Rightarrow> (arr \<Rightarrow> arr) \<Rightarrow> adv_data \<Rightarrow> string \<Rightarrow> grid \<Rightarrow>
   bool \<Rightarrow> string list \<Rightarrow> bool \<Rightarrow> (dir \<Rightarrow> arr) option \<Rightarrow>
   error + (comp \<Rightarrow> dir \<Rightarrow> arr) \<times> (comp \<Rightarrow> dir \<Rightarrow> arr)" where
  "adv_components hdiv avg_xy dat VAR grd havg adims dz_out trb =
     (let tend_of = adv_i hdiv avg_xy dat VAR grd havg adims dz_out
      in ebind (tend_of adv_r (tot_flux dat)) (\<lambda>a_adv.
         ebind (tend_of mean (mean_flux dat)) (\<lambda>a_mean.
         ebind (case trb of None \<Rightarrow> Inr None
                | Some t \<Rightarrow> ebind (tend_of trb_r t) (\<lambda>a. Inr (Some a))) (\<lambda>a_trb.
         let a_adv = (if havg then (\<lambda>D. avg_xy (a_adv D)) else a_adv);
             f_adv = (if havg then (\<lambda>D. avg_xy (tot_flux dat D)) else tot_flux dat)
         in Inr (concat_comp f_adv (mean_flux dat) trb, concat_comp a_adv a_mean a_trb)))))"

definition adv_tend ::
  "(comp \<Rightarrow> dir \<Rightarrow> arr \<Rightarrow> arr) \<Rightarrow> (arr \<Rightarrow> arr) \<Rightarrow> adv_data \<Rightarrow> string \<Rightarrow> grid \<Rightarrow>
   bool \<Rightarrow> string list \<Rightarrow> bool \<Rightarrow> bool \<Rightarrow> bool \<Rightarrow>
   error + (comp \<Rightarrow> dir \<Rightarrow> arr) \<times> (comp \<Rightarrow> dir \<Rightarrow> arr)" where
  "adv_tend hdiv avg_xy dat VAR grd havg adims cart dzx dzz =
     (let dz_out = (dzx \<or> dzz);
          trb = explicit_trb (dat_mean dat) VAR cart
      in ebind (adv_components hdiv avg_xy dat VAR grd havg adims dz_out trb) (\<lambda>fa.
           case trb of
             None \<Rightarrow> residuals [''X'', ''Y'', ''Z''] fa
           | Some t \<Rightarrow> if havg then residuals (map str_upper adims) fa else Inr fa))"

text \<open>The residual identity of one direction: the turbulent entry is the total entry
  minus the mean entry.\<close>

definition is_residual :: "(comp \<Rightarrow> dir \<Rightarrow> arr) \<Rightarrow> dir \<Rightarrow> bool" where
  "is_residual f D = (arr_op vsub (f adv_r D) (f mean D) = Inr (f trb_r D))"

text \<open>The condition under which the loop over the variables skips a variable.\<close>

definition var_skipped :: "env \<Rightarrow> run_args \<Rightarrow> string \<Rightarrow> bool" where
  "var_skipped e a var = (skip_exist a \<and> output_exists e (methods_cartesian a) var)"

text \<open>The samples \<open>stagger\<close> returns on an axis other than \<open>bottom_top\<close>: the
  two-point average with the rolled copy, one more point, and the boundary fill of
  \<open>post_stagger\<close>.\<close>

definition hstag :: "field \<Rightarrow> bool \<Rightarrow> field" where
  "hstag data cyclic =
     (let ds = fscale (1 / 2) (fadd data (roll data))
      in if cyclic then (ds @ [None])[length ds := (ds @ [None]) ! 0]
         else (ds @ [None])[0 := None])"

text \<open>The weighted two-point average \<open>stagger\<close> forms on \<open>bottom_top\<close>, before
  \<open>post_stagger\<close>.\<close>

definition vstag :: "field \<Rightarrow> (nat \<Rightarrow> val) \<Rightarrow> (nat \<Rightarrow> val) \<Rightarrow> field" where
  "vstag data FNM FNP = fadd (fweight data FNM) (fweight (shift_up data) FNP)"

text \<open>The partition the tile scheduler is meant to produce, for stating what
  \<open>create_tiles\<close> computes: the number of chunks of an axis of \<open>n\<close> points for a
  positive chunk length, and tile \<open>i\<close> of \<open>k\<close> with one halo point before its first
  index \<open>i * sz\<close>, one after its last index for the unstaggered axis and two for the
  staggered one, and no halo at the two ends of the domain.\<close>

definition nchunks :: "nat \<Rightarrow> int \<Rightarrow> nat" where
  "nchunks n sz = (n + nat sz - 1) div nat sz"

definition dim_len :: "(string \<times> nat) list \<Rightarrow> string \<Rightarrow> nat" where
  "dim_len ds d = (case map_of ds d of Some n \<Rightarrow> n | None \<Rightarrow> 0)"

definition halo_tile :: "string \<Rightarrow> int \<Rightarrow> nat \<Rightarrow> nat \<Rightarrow> tile" where
  "halo_tile dimn sz k i =
     [(dimn, (if i = 0 then None else Some (int i * sz - 1),
              if i = k - 1 then None else Some (int (i + 1) * sz + 1))),
      (dimn @ ''_stag'', (if i = 0 then None else Some (int i * sz - 1),
                          if i = k - 1 then None else Some (int (i + 1) * sz + 2)))]"

definition axis_tiles :: "(string \<times> nat) list \<Rightarrow> string \<times> int \<Rightarrow> tile list" where
  "axis_tiles ds c =
     (let k = nchunks (dim_len ds (fst c)) (snd c)
      in map (halo_tile (fst c) (snd c) k) [0..<k])"

definition one_chunk :: "(string \<times> nat) list \<Rightarrow> string \<times> int \<Rightarrow> bool" where
  "one_chunk ds c = (nchunks (dim_len ds (fst c)) (snd c) = 1)"

section \<open>Properties\<close>

subsection \<open>Budget methods are validated before any tendency is computed\<close>








subsection \<open>A tile switches periodic boundaries off in the tiled dimensions\<close>

lemma run_methods_cyclic:
  "\<forall>ev \<in> set tr. event_cyclic ev = None \<or> event_cyclic ev = Some cyclic \<Longrightarrow>
   \<forall>ev \<in> set (fst (run_methods cyclic var bms tr)).
      event_cyclic ev = None \<or> event_cyclic ev = Some cyclic"
proof (induction bms arbitrary: tr)
  case Nil
  then show ?case by simp
next
  case (Cons bm bms)
  show ?case
  proof (cases "get_budget_method bm")
    case (Inl err)
    then show ?thesis using Cons.prems by simp
  next
    case (Inr r)
    obtain c name where r: "r = (c, name)" by (cases r)
    let ?tr' = "tr @ [TotalTendency var name (dz_out_x c \<or> dz_out_z c) cyclic,
                      AdvTend var name c cyclic]
                   @ (if cartesian c
                      then [CartesianCorrections var name (dz_out_x c \<or> dz_out_z c) cyclic]
                      else [])"
    have "\<forall>ev \<in> set ?tr'. event_cyclic ev = None \<or> event_cyclic ev = Some cyclic"
      using Cons.prems by auto
    from Cons.IH[OF this] show ?thesis
      using Inr r Cons.prems by (simp add: Let_def)
  qed
qed

lemma run_variables_cyclic:
  "\<forall>ev \<in> set tr. event_cyclic ev = None \<or> event_cyclic ev = Some cyclic \<Longrightarrow>
   \<forall>ev \<in> set (fst (run_variables e skip bms cart cyclic vars tr)).
      event_cyclic ev = None \<or> event_cyclic ev = Some cyclic"
proof (induction vars arbitrary: tr)
  case Nil
  then show ?case by simp
next
  case (Cons var vars)
  show ?case
  proof (cases "skip \<and> output_exists e cart var")
    case True
    have "\<forall>ev \<in> set (tr @ [LoadPostproc var]).
            event_cyclic ev = None \<or> event_cyclic ev = Some cyclic"
      using Cons.prems by auto
    from Cons.IH[OF this] show ?thesis using True by simp
  next
    case False
    have p: "\<forall>ev \<in> set (tr @ [CalcTendSources var cyclic]).
            event_cyclic ev = None \<or> event_cyclic ev = Some cyclic"
      using Cons.prems by auto
    obtain tr' r where rm: "run_methods cyclic var bms (tr @ [CalcTendSources var cyclic]) = (tr', r)"
      by (cases "run_methods cyclic var bms (tr @ [CalcTendSources var cyclic])")
    have tr': "\<forall>ev \<in> set tr'. event_cyclic ev = None \<or> event_cyclic ev = Some cyclic"
      using run_methods_cyclic[OF p, of var bms] rm by simp
    then have "\<forall>ev \<in> set (tr' @ [SaveOutput var]).
            event_cyclic ev = None \<or> event_cyclic ev = Some cyclic"
      by auto
    from Cons.IH[OF this] show ?thesis
      using False rm tr' by (cases r) auto
  qed
qed

lemma core_cyclic:
  assumes ev: "ev \<in> set (fst (calc_tendencies_core e a tile))"
      and c: "event_cyclic ev = Some cyc"
  shows "cyc = tile_cyclic e tile"
proof -
  have "\<forall>ev \<in> set [LoadData, Prepare (tile_cyclic e tile)].
          event_cyclic ev = None \<or> event_cyclic ev = Some (tile_cyclic e tile)"
    by simp
  from run_variables_cyclic[OF this]
  have "\<forall>ev \<in> set (fst (calc_tendencies_core e a tile)).
          event_cyclic ev = None \<or> event_cyclic ev = Some (tile_cyclic e tile)"
    by (simp add: calc_tendencies_core_def Let_def)
  with ev c show ?thesis by auto
qed

lemma tile_cyclic_lookup:
  "d \<in> set (map fst t) \<Longrightarrow>
   map_of (tile_cyclic e (Some t)) d =
     (if d \<in> set [''x'', ''y'', ''bottom_top''] then Some False else None)"
  by (force simp: tile_cyclic_def)

text \<open>
  Claim C9. When a tile is processed, every call of the per-tile computation that takes
  the cyclic dictionary (\<open>prepare\<close>, the source, total and advective tendency
  calculators, the Cartesian corrections) takes the one adjusted for the tile, and in
  it no dimension of the tile mapping is periodic: the flag of \<open>x\<close>, \<open>y\<close> or
  \<open>bottom_top\<close> is False when the dimension is in the tile, whatever the domain's
  periodicity, and other dimensions of the tile have no flag.
\<close>

theorem tile_disables_periodic:
  assumes "ev \<in> set (fst (calc_tendencies_core e a (Some t)))"
      and "event_cyclic ev = Some cyc"
      and "d \<in> set (map fst t)"
  shows "cyc = tile_cyclic e (Some t) \<and> map_of cyc d \<noteq> Some True
         \<and> map_of cyc d = (if d \<in> set [''x'', ''y'', ''bottom_top''] then Some False else None)"
  using core_cyclic[OF assms(1,2)] tile_cyclic_lookup[OF assms(3), of e] by simp

lemma get_cartesian: "get_budget_method ''cartesian'' = Inr (\<lparr>cartesian = True, dz_out_x = False, dz_out_z = False, force_2nd_adv = False\<rparr>, ''cartesian'')"
  by (simp add: get_budget_method_def budget_method_keys_def replace_short_def settings_short_names_def budget_settings_def)

theorem tile_disables_periodic_witness:
  "AdvTend ''t'' ''cartesian''
      \<lparr>cartesian = True, dz_out_x = False, dz_out_z = False, force_2nd_adv = False\<rparr>
      [(''x'', False), (''y'', True), (''bottom_top'', False)]
     \<in> set (fst (calc_tendencies_core
         \<lparr>nproc = 1, rank = 0, existing = [], periodic_x = 1, periodic_y = 1,
            dims = [(''x'', 4), (''y'', 4)]\<rparr>
         \<lparr>variables = [''t''], budget_methods = Lst [''cartesian''], hor_avg = False,
            avg_dims = None, skip_exist = False\<rparr>
         (Some [(''x'', (Some 1, None)), (''x_stag'', (Some 1, None))])))
   \<and> map_of [(''x'', False), (''y'', True), (''bottom_top'', False)] ''x'' = Some False"
proof -
  let ?e = "\<lparr>nproc = 1, rank = 0, existing = [], periodic_x = 1, periodic_y = 1,
            dims = [(''x'', 4), (''y'', 4)]\<rparr>"
  let ?a = "\<lparr>variables = [''t''], budget_methods = Lst [''cartesian''], hor_avg = False,
            avg_dims = None, skip_exist = False\<rparr>"
  let ?t = "[(''x'', (Some 1, None)), (''x_stag'', (Some (1::int), None::int option))]"
  let ?ev = "AdvTend ''t'' ''cartesian''
      \<lparr>cartesian = True, dz_out_x = False, dz_out_z = False, force_2nd_adv = False\<rparr>
      [(''x'', False), (''y'', True), (''bottom_top'', False)]"
  have h1: "?ev \<in> set (fst (calc_tendencies_core ?e ?a (Some ?t)))"
    by (simp add: calc_tendencies_core_def tile_cyclic_def get_cartesian Let_def)
  have h2: "event_cyclic ?ev = Some [(''x'', False), (''y'', True), (''bottom_top'', False)]"
    by simp
  have h3: "''x'' \<in> set (map fst ?t)" by simp
  have "map_of [(''x'', False), (''y'', True), (''bottom_top'', False)] ''x''
          = (if ''x'' \<in> set [''x'', ''y'', ''bottom_top''] then Some False else None)"
    using tile_disables_periodic[OF h1 h2 h3] by blast
  then have "map_of [(''x'', False), (''y'', True), (''bottom_top'', False)] ''x'' = Some False"
    by simp
  with h1 show ?thesis by blast
qed

subsection \<open>The default budget method and the process count\<close>

lemma get_default:
  "get_budget_method ''castesian'' = Inl (ValueError ''Undefined keys: castesian'')"
  by (simp add: get_budget_method_def budget_method_keys_def replace_short_def
      settings_short_names_def budget_settings_def)

lemma run_methods_default:
  "run_methods cyclic var [''castesian''] tr = (tr, Some (ValueError ''Undefined keys: castesian''))"
  by (simp add: get_default)

lemma run_variables_default:
  "run_variables e skip [''castesian''] cart cyclic vars tr =
     (tr @ map LoadPostproc (takeWhile (\<lambda>v. skip \<and> output_exists e cart v) vars)
         @ (case dropWhile (\<lambda>v. skip \<and> output_exists e cart v) vars of
              [] \<Rightarrow> [] | v # vs \<Rightarrow> [CalcTendSources v cyclic]),
      case dropWhile (\<lambda>v. skip \<and> output_exists e cart v) vars of
        [] \<Rightarrow> None | v # vs \<Rightarrow> Some (ValueError ''Undefined keys: castesian''))"
proof (induction vars arbitrary: tr)
  case Nil
  show ?case by simp
next
  case (Cons var vars)
  show ?case
  proof (cases "skip \<and> output_exists e cart var")
    case True
    then show ?thesis using Cons.IH[of "tr @ [LoadPostproc var]"] by simp
  next
    case False
    then show ?thesis using run_methods_default[of cyclic var "tr @ [CalcTendSources var cyclic]"]
      by auto
  qed
qed

lemma default_not_cartesian:
  "budget_methods a = default_budget_methods \<Longrightarrow> \<not> methods_cartesian a"
  by (simp add: methods_cartesian_def default_budget_methods_def str_contains_def)

lemma skip_all_iff:
  "skip_all e a = (skip_exist a \<and> (\<forall>v \<in> set (variables a). output_exists e (methods_cartesian a) v))"
  by (auto simp: skip_all_def needed_files_def output_exists_def list_all_iff)

lemma core_default:
  assumes "budget_methods a = default_budget_methods" "\<not> (hor_avg a \<and> avg_dims a = None)"
  shows "calc_tendencies_core e a tile =
           ([LoadData, Prepare (tile_cyclic e tile)]
              @ map LoadPostproc (takeWhile (var_skipped e a) (variables a))
              @ (case dropWhile (var_skipped e a) (variables a) of
                   [] \<Rightarrow> [] | v # vs \<Rightarrow> [CalcTendSources v (tile_cyclic e tile)]),
            case dropWhile (var_skipped e a) (variables a) of
              [] \<Rightarrow> None | v # vs \<Rightarrow> Some (ValueError ''Undefined keys: castesian''))"
proof -
  have m: "make_list (budget_methods a) = [''castesian'']"
    using assms(1) by (simp add: default_budget_methods_def)
  have vs: "var_skipped e a = (\<lambda>v. skip_exist a \<and> output_exists e (methods_cartesian a) v)"
    by (rule ext) (simp add: var_skipped_def)
  show ?thesis
    using assms(2) unfolding calc_tendencies_core_def Let_def m vs methods_cartesian_def
    by (simp add: run_variables_default m)
qed

text \<open>
  Claim C10 (as amended). The default method string \<open>"castesian"\<close> is no budget setting
  and no abbreviation: \<open>get_budget_method\<close> raises
  \<open>ValueError("Undefined keys: castesian")\<close> on it, and the default never enables the
  Cartesian corrections. A call of \<open>calc_tendencies_core\<close> with the default loads
  the output of the variables it skips (\<open>skip_exist\<close> and all their files present)
  and aborts with that error at the first variable it does not skip, after the source
  tendencies of that variable and before any total or advective tendency; when every
  variable is skipped it returns without an error. \<open>calc_tendencies\<close> on one process
  without chunks ends the same way.
\<close>

theorem default_budget_method_undefined:
  assumes "budget_methods a = default_budget_methods" "\<not> (hor_avg a \<and> avg_dims a = None)"
  shows "get_budget_method ''castesian'' = Inl (ValueError ''Undefined keys: castesian'')
       \<and> \<not> methods_cartesian a
       \<and> calc_tendencies_core e a tile =
           ([LoadData, Prepare (tile_cyclic e tile)]
              @ map LoadPostproc (takeWhile (var_skipped e a) (variables a))
              @ (case dropWhile (var_skipped e a) (variables a) of
                   [] \<Rightarrow> [] | v # vs \<Rightarrow> [CalcTendSources v (tile_cyclic e tile)]),
            case dropWhile (var_skipped e a) (variables a) of
              [] \<Rightarrow> None | v # vs \<Rightarrow> Some (ValueError ''Undefined keys: castesian''))
       \<and> (nproc e \<le> 1 \<longrightarrow>
            snd (calc_tendencies e a None) =
              (case dropWhile (var_skipped e a) (variables a) of
                 [] \<Rightarrow> None | v # vs \<Rightarrow> Some (ValueError ''Undefined keys: castesian'')))"
proof -
  note core = core_default[OF assms, of e]
  have ct: "snd (calc_tendencies e a None) =
              (case dropWhile (var_skipped e a) (variables a) of
                 [] \<Rightarrow> None | v # vs \<Rightarrow> Some (ValueError ''Undefined keys: castesian''))"
    if n: "nproc e \<le> 1"
  proof (cases "skip_all e a")
    case True
    then have "\<forall>v \<in> set (variables a). var_skipped e a v"
      by (simp add: skip_all_iff var_skipped_def)
    then have d: "dropWhile (var_skipped e a) (variables a) = []" by simp
    show ?thesis using True assms(2) unfolding d by (auto simp: calc_tendencies_def Let_def)
  next
    case False
    then show ?thesis using assms(2) n unfolding calc_tendencies_def Let_def core[of None]
      by auto
  qed
  show ?thesis using get_default default_not_cartesian[OF assms(1)] core ct by blast
qed


theorem default_budget_method_undefined_witness:
  "budget_methods \<lparr>variables = [''t''], budget_methods = default_budget_methods,
       hor_avg = False, avg_dims = None, skip_exist = True\<rparr> = default_budget_methods
   \<and> calc_tendencies_core
        \<lparr>nproc = 1, rank = 0, existing = [], periodic_x = 1, periodic_y = 0, dims = []\<rparr>
        \<lparr>variables = [''t''], budget_methods = default_budget_methods,
           hor_avg = False, avg_dims = None, skip_exist = True\<rparr> None
      = ([LoadData, Prepare [(''x'', True), (''y'', False), (''bottom_top'', False)],
          CalcTendSources ''t'' [(''x'', True), (''y'', False), (''bottom_top'', False)]],
         Some (ValueError ''Undefined keys: castesian''))"
proof -
  let ?e = "\<lparr>nproc = 1, rank = 0, existing = [], periodic_x = 1, periodic_y = 0, dims = []\<rparr>"
  let ?a = "\<lparr>variables = [''t''], budget_methods = default_budget_methods,
           hor_avg = False, avg_dims = None, skip_exist = True\<rparr>"
  have h1: "budget_methods ?a = default_budget_methods" by simp
  have h2: "\<not> (hor_avg ?a \<and> avg_dims ?a = None)" by simp
  have ns: "\<not> var_skipped ?e ?a ''t''"
    by (simp add: var_skipped_def output_exists_def outfiles_def)
  from default_budget_method_undefined[OF h1 h2, of ?e None] ns h1
  show ?thesis by (simp add: tile_cyclic_def)
qed

text \<open>
  The claim as stated fails: with the default budget methods and the output of the
  variable already on disk, \<open>calc_tendencies\<close> loads that output and returns.
\<close>

theorem default_budget_method_returns_counterexample:
  "calc_tendencies
     \<lparr>nproc = 1, rank = 0,
        existing = [(''t'', ''grid''), (''t'', ''adv''), (''t'', ''flux''), (''t'', ''tend''),
                    (''t'', ''sources''), (''t'', ''sgs''), (''t'', ''sgsflux'')],
        periodic_x = 1, periodic_y = 1, dims = []\<rparr>
     \<lparr>variables = [''t''], budget_methods = default_budget_methods,
        hor_avg = False, avg_dims = None, skip_exist = True\<rparr> None
   = ([LoadPostproc ''t''], None)"
  by (simp add: calc_tendencies_def skip_all_def needed_files_def methods_cartesian_def
      default_budget_methods_def str_contains_def outfiles_def removed_files_def)

text \<open>
  Claim C8 (as amended). With more than one process and \<open>chunks=None\<close>,
  \<open>calc_tendencies\<close> raises the ValueError about the disabled chunking without
  calling \<open>calc_tendencies_core\<close>, unless it returns the existing output first
  (\<open>skip_exist\<close> and every output file present); before raising, process 0 has deleted
  the existing output files when \<open>skip_exist\<close> is off.
\<close>

theorem nproc_without_chunks_raises:
  assumes "nproc e > 1" "\<not> (hor_avg a \<and> avg_dims a = None)" "\<not> skip_all e a"
  shows "calc_tendencies e a None =
           (removed_files e a,
            Some (ValueError ''Number of processors > 1, but chunking is disabled (chunks=None)!''))
         \<and> (\<forall>ev \<in> set (removed_files e a). \<exists>var outfile. ev = RemoveFile var outfile)"
proof -
  have "\<forall>ev \<in> set (removed_files e a). \<exists>var outfile. ev = RemoveFile var outfile"
    by (auto simp: removed_files_def)
  moreover have "calc_tendencies e a None =
           (removed_files e a,
            Some (ValueError ''Number of processors > 1, but chunking is disabled (chunks=None)!''))"
    using assms unfolding calc_tendencies_def Let_def by auto
  ultimately show ?thesis by blast
qed

theorem nproc_without_chunks_raises_witness:
  "nproc \<lparr>nproc = 2, rank = 0, existing = [(''t'', ''grid'')], periodic_x = 1, periodic_y = 1,
          dims = []\<rparr> > 1
   \<and> calc_tendencies
        \<lparr>nproc = 2, rank = 0, existing = [(''t'', ''grid'')], periodic_x = 1, periodic_y = 1,
           dims = []\<rparr>
        \<lparr>variables = [''t''], budget_methods = Str ''cartesian'',
           hor_avg = False, avg_dims = None, skip_exist = False\<rparr> None
      = ([RemoveFile ''t'' ''grid''],
         Some (ValueError ''Number of processors > 1, but chunking is disabled (chunks=None)!''))"
proof -
  let ?e = "\<lparr>nproc = 2, rank = 0, existing = [(''t'', ''grid'')], periodic_x = 1, periodic_y = 1,
           dims = []\<rparr>"
  let ?a = "\<lparr>variables = [''t''], budget_methods = Str ''cartesian'',
           hor_avg = False, avg_dims = None, skip_exist = False\<rparr>"
  have h1: "nproc ?e > 1" by simp
  have h2: "\<not> (hor_avg ?a \<and> avg_dims ?a = None)" by simp
  have h3: "\<not> skip_all ?e ?a" by (simp add: skip_all_def)
  have r: "removed_files ?e ?a = [RemoveFile ''t'' ''grid'']"
    by (simp add: removed_files_def needed_files_def outfiles_def)
  from nproc_without_chunks_raises[OF h1 h2 h3] r h1 show ?thesis by simp
qed

text \<open>
  The claim as stated fails: four processes, no chunks, and the output of the variable
  already on disk with \<open>skip_exist\<close> on: the output is loaded and returned, nothing
  is raised.
\<close>

theorem nproc_without_chunks_skips_counterexample:
  "nproc \<lparr>nproc = 4, rank = 1,
          existing = [(''u'', ''grid''), (''u'', ''adv''), (''u'', ''flux''), (''u'', ''tend''),
                      (''u'', ''sources''), (''u'', ''sgs''), (''u'', ''sgsflux''),
                      (''u'', ''corr'')],
          periodic_x = 0, periodic_y = 0, dims = []\<rparr> > 1
   \<and> calc_tendencies
        \<lparr>nproc = 4, rank = 1,
           existing = [(''u'', ''grid''), (''u'', ''adv''), (''u'', ''flux''), (''u'', ''tend''),
                       (''u'', ''sources''), (''u'', ''sgs''), (''u'', ''sgsflux''),
                       (''u'', ''corr'')],
           periodic_x = 0, periodic_y = 0, dims = []\<rparr>
        \<lparr>variables = [''u''], budget_methods = Str ''cartesian'',
           hor_avg = False, avg_dims = None, skip_exist = True\<rparr> None
      = ([LoadPostproc ''u''], None)"
  by (simp add: calc_tendencies_def skip_all_def needed_files_def removed_files_def
      outfiles_def methods_cartesian_def str_contains_def)

subsection \<open>Staggering and destaggering\<close>

lemma length_shift_up [simp]: "length (shift_up xs) = length xs"
  by (simp add: shift_up_def)

lemma length_shift_down [simp]: "length (shift_down xs) = length xs"
  by (cases xs) (simp_all add: shift_down_def)

lemma length_roll [simp]: "length (roll xs) = length xs"
  by (simp add: roll_def)

lemma length_fadd [simp]: "length (fadd xs ys) = min (length xs) (length ys)"
  by (simp add: fadd_def)

lemma length_fsub [simp]: "length (fsub xs ys) = min (length xs) (length ys)"
  by (simp add: fsub_def)

lemma length_fscale [simp]: "length (fscale c xs) = length xs"
  by (simp add: fscale_def)

lemma length_fweight [simp]: "length (fweight xs w) = length xs"
  by (simp add: fweight_def)

lemma roll_nth:
  "i < length xs \<Longrightarrow> roll xs ! i = (if i = 0 then last xs else xs ! (i - 1))"
  by (auto simp: roll_def nth_Cons' nth_butlast)

lemma shift_up_nth:
  "i < length xs \<Longrightarrow> shift_up xs ! i = (if i = 0 then None else xs ! (i - 1))"
  by (auto simp: shift_up_def nth_Cons' nth_butlast)

lemma shift_down_nth:
  "i < length xs \<Longrightarrow> shift_down xs ! i = (if Suc i < length xs then xs ! Suc i else None)"
  by (cases xs) (auto simp: shift_down_def nth_append nth_tl)

lemma fadd_nth: "i < length xs \<Longrightarrow> i < length ys \<Longrightarrow> fadd xs ys ! i = vadd (xs ! i) (ys ! i)"
  by (simp add: fadd_def)

lemma fsub_nth: "i < length xs \<Longrightarrow> i < length ys \<Longrightarrow> fsub xs ys ! i = vsub (xs ! i) (ys ! i)"
  by (simp add: fsub_def)

lemma fscale_nth: "i < length xs \<Longrightarrow> fscale c xs ! i = vmul (Some c) (xs ! i)"
  by (simp add: fscale_def)

lemma fweight_nth: "i < length xs \<Longrightarrow> fweight xs w ! i = vmul (xs ! i) (w i)"
  by (simp add: fweight_def)

lemma post_stagger_horizontal:
  "dimn \<noteq> ''bottom_top'' \<Longrightarrow>
   post_stagger ds dimn rename data cyclic ic =
     Inr (if rename then dimn @ ''_stag'' else dimn,
          if cyclic then (ds @ [None])[length ds := (ds @ [None]) ! 0]
          else (ds @ [None])[0 := None])"
  by (simp add: post_stagger_def Let_def)

lemma post_stagger_vertical_plain:
  "post_stagger ds ''bottom_top'' rename data cyclic [] =
     Inr (if rename then ''bottom_top_stag'' else ''bottom_top'', ds @ [None])"
  by (simp add: post_stagger_def Let_def)

lemma strip_stag_xy: "dimn \<in> set [''x'', ''y''] \<Longrightarrow> strip_stag (dimn @ ''_stag'') = Inr dimn"
  by (auto simp: strip_stag_def)

lemma stagger_horizontal:
  "dimn \<noteq> ''bottom_top'' \<Longrightarrow>
   stagger data dimn FNM FNP rename cyclic ic =
     Inr (if rename then dimn @ ''_stag'' else dimn, hstag data cyclic)"
  by (simp add: stagger_def post_stagger_horizontal hstag_def Let_def)

lemma length_hstag [simp]: "length (hstag data cyclic) = Suc (length data)"
  by (simp add: hstag_def Let_def)

lemma hstag_interior:
  "0 < j \<Longrightarrow> j < length data \<Longrightarrow>
   hstag data cyclic ! j = vmul (Some (1 / 2)) (vadd (data ! j) (data ! (j - 1)))"
  by (simp add: hstag_def Let_def nth_append fscale_nth fadd_nth roll_nth)

lemma destagger_nth:
  "i + 1 < length s \<Longrightarrow>
   butlast (fscale (1 / 2) (fadd s (shift_down s))) ! i
     = vmul (Some (1 / 2)) (vadd (s ! i) (s ! (i + 1)))"
  by (simp add: nth_butlast fscale_nth fadd_nth shift_down_nth)

lemma destagger_stagger_eq:
  assumes "dimn \<in> set [''x'', ''y'']"
  shows "destagger_stagger data dimn cyclic =
           Inr (dimn, butlast (fscale (1 / 2)
                  (fadd (hstag data cyclic) (shift_down (hstag data cyclic)))))"
proof -
  have ne: "dimn \<noteq> ''bottom_top''" using assms by auto
  show ?thesis
    unfolding destagger_stagger_def stagger_horizontal[OF ne]
    by (simp add: ebind_def destagger_def strip_stag_xy[OF assms])
qed

text \<open>
  Claim C2 (as amended). For a field without NaNs and a horizontal axis, destaggering
  the staggered field gives, at every interior point \<open>i\<close> of the axis, the three-point
  average \<open>(f[i-1] + 2 f[i] + f[i+1]) / 4\<close>; it reproduces \<open>f[i]\<close> exactly when
  \<open>f[i-1] + f[i+1] = 2 f[i]\<close>, as for a field that is linear along the axis.
\<close>

theorem destagger_stagger_interior:
  assumes "dimn \<in> set [''x'', ''y'']" "0 < i" "i + 1 < length xs"
  shows "\<exists>r. destagger_stagger (map Some xs) dimn cyclic = Inr (dimn, r)
             \<and> length r = length xs
             \<and> r ! i = Some ((xs ! (i - 1) + 2 * xs ! i + xs ! (i + 1)) / 4)
             \<and> (r ! i = Some (xs ! i) \<longleftrightarrow> xs ! (i - 1) + xs ! (i + 1) = 2 * xs ! i)"
proof -
  let ?d = "map Some xs"
  let ?s = "hstag ?d cyclic"
  let ?r = "butlast (fscale (1 / 2) (fadd ?s (shift_down ?s)))"
  have si: "?s ! i = Some ((xs ! i + xs ! (i - 1)) / 2)"
    using assms(2,3) by (simp add: hstag_interior)
  have si1: "?s ! (i + 1) = Some ((xs ! (i + 1) + xs ! i) / 2)"
    using assms(3) hstag_interior[of "i + 1" ?d cyclic] by simp
  have "?r ! i = vmul (Some (1 / 2)) (vadd (?s ! i) (?s ! (i + 1)))"
    using assms(3) by (intro destagger_nth) simp
  then have ri: "?r ! i = Some ((xs ! (i - 1) + 2 * xs ! i + xs ! (i + 1)) / 4)"
    unfolding si si1 by (simp add: field_simps)
  have len: "length ?r = length xs" by simp
  have iff: "(?r ! i = Some (xs ! i)) = (xs ! (i - 1) + xs ! (i + 1) = 2 * xs ! i)"
    unfolding ri by (auto simp: field_simps)
  show ?thesis
    using destagger_stagger_eq[OF assms(1), of ?d cyclic] ri len iff by blast
qed


theorem destagger_stagger_interior_witness:
  "''x'' \<in> set [''x'', ''y''] \<and> (0::nat) < 1 \<and> 1 + 1 < length [0, 1, 0, 0::real]
   \<and> (\<exists>r. destagger_stagger (map Some [0, 1, 0, 0]) ''x'' True = Inr (''x'', r)
            \<and> r ! 1 = Some (1 / 2))"
proof -
  have h1: "''x'' \<in> set [''x'', ''y'']" by simp
  have h2: "(0::nat) < 1" by simp
  have h3: "1 + 1 < length [0, 1, 0, 0::real]" by simp
  from destagger_stagger_interior[OF h1 h2 h3, of True]
  obtain r where "destagger_stagger (map Some [0, 1, 0, 0]) ''x'' True = Inr (''x'', r)"
    and "r ! 1 = Some (([0, 1, 0, 0::real] ! (1 - 1) + 2 * [0, 1, 0, 0] ! 1
                         + [0, 1, 0, 0] ! (1 + 1)) / 4)"
    by blast
  then have "destagger_stagger (map Some [0, 1, 0, 0]) ''x'' True = Inr (''x'', r)
             \<and> r ! 1 = Some (1 / 2)"
    by simp
  with h1 h2 h3 show ?thesis by blast
qed

text \<open>
  The claim as stated fails: the field \<open>0, 1, 0, 0\<close> has no NaN, and after
  \<open>stagger\<close> and \<open>destagger\<close> along \<open>x\<close> its interior points hold
  \<open>1/2\<close> and \<open>1/4\<close>, not \<open>1\<close> and \<open>0\<close>.
\<close>

theorem destagger_stagger_inverse_counterexample:
  "destagger_stagger [Some 0, Some 1, Some 0, Some 0] ''x'' False
     = Inr (''x'', [None, Some (1 / 2), Some (1 / 4), None])
   \<and> [None, Some (1 / 2), Some (1 / 4), None] ! 1 \<noteq> [Some 0, Some 1, Some 0, Some (0::real)] ! 1"
  by (simp add: destagger_stagger_def stagger_def destagger_def post_stagger_def roll_def
      fadd_def fscale_def shift_down_def ebind_def strip_stag_def)

subsection \<open>Differences and boundary values\<close>

lemma vadd_None [simp]: "vadd a None = None"
  by (cases a) simp_all

lemma vsub_None [simp]: "vsub a None = None"
  by (cases a) simp_all

lemma diff_raw_eq:
  "diff_raw data dimn cyclic =
     (if cyclic \<and> dimn \<notin> set [''bottom_top'', ''z'', ''bottom_top_stag'', ''z_stag'', ''Time'']
      then fsub data (roll data) else fsub data (shift_up data))"
  unfolding diff_raw_def Let_def by (simp only: de_Morgan_conj not_not if_not_P split: if_splits) auto

lemma backward_first: "data \<noteq> [] \<Longrightarrow> fsub data (shift_up data) ! 0 = None"
  by (simp add: fsub_nth shift_up_nth)



lemma fill_missing_same:
  assumes "out \<noteq> [] \<Longrightarrow> out ! 0 = None"
  shows "(out @ [None])[length out := (out @ [None]) ! 0] = out @ [None]"
    and "(out @ [None])[0 := None] = out @ [None]"
proof -
  have z: "(out @ [None]) ! 0 = None" using assms by (cases out) simp_all
  show "(out @ [None])[length out := (out @ [None]) ! 0] = out @ [None]"
    unfolding z by (simp add: list_update_append)
  show "(out @ [None])[0 := None] = out @ [None]"
    using z by (metis list_update_id)
qed

lemma vertical_dims_cases:
  "dimn \<in> set [''bottom_top'', ''z'', ''bottom_top_stag'', ''z_stag'', ''Time''] \<Longrightarrow>
   (str_contains ''_stag'' dimn \<and> (dimn = ''bottom_top_stag'' \<or> dimn = ''z_stag''))
   \<or> (\<not> str_contains ''_stag'' dimn \<and> (dimn = ''bottom_top'' \<or> dimn = ''z'' \<or> dimn = ''Time''))"
  by (auto simp: str_contains_def)

lemma diff_vertical:
  assumes "dimn \<in> set [''bottom_top'', ''z'', ''bottom_top_stag'', ''z_stag'', ''Time'']"
  shows "\<exists>d. diff data dimn rename cyclic =
           Inr (d, if str_contains ''_stag'' dimn then drop 1 (fsub data (shift_up data))
                   else fsub data (shift_up data) @ [None])"
proof -
  let ?out = "fsub data (shift_up data)"
  have raw: "diff_raw data dimn cyclic = ?out"
    using assms by (simp add: diff_raw_eq)
  have z: "?out \<noteq> [] \<Longrightarrow> ?out ! 0 = None"
    by (rule backward_first) (auto simp: fsub_def)
  note fm = fill_missing_same[of ?out, OF z]
  from vertical_dims_cases[OF assms] show ?thesis
  proof (elim disjE conjE)
    assume s: "str_contains ''_stag'' dimn" and "dimn = ''bottom_top_stag''"
    then show ?thesis unfolding diff_def raw Let_def
      by (simp add: strip_stag_def ebind_def)
  next
    assume s: "str_contains ''_stag'' dimn" and "dimn = ''z_stag''"
    then show ?thesis unfolding diff_def raw Let_def
      by (simp add: strip_stag_def ebind_def)
  next
    assume s: "\<not> str_contains ''_stag'' dimn" and "dimn = ''bottom_top''"
    then show ?thesis unfolding diff_def raw Let_def
      by (simp add: post_stagger_def)
  next
    assume s: "\<not> str_contains ''_stag'' dimn" and d: "dimn = ''z''"
    have ne: "dimn \<noteq> ''bottom_top''" using d by simp
    show ?thesis unfolding diff_def raw Let_def post_stagger_horizontal[OF ne]
      using s fm by simp
  next
    assume s: "\<not> str_contains ''_stag'' dimn" and d: "dimn = ''Time''"
    have ne: "dimn \<noteq> ''bottom_top''" using d by simp
    show ?thesis unfolding diff_def raw Let_def post_stagger_horizontal[OF ne]
      using s fm by simp
  qed
qed





lemma vmul_None [simp]: "vmul None a = None"
  by simp

lemma getitem_Some: "map_of d k = Some v \<Longrightarrow> getitem d k = Inr v"
  by (simp add: getitem_def)

lemma isel_nonneg: "i < length xs \<Longrightarrow> isel xs (int i) = Inr (xs ! i)"
  by (simp add: isel_def py_index_def)

lemma isel_last: "1 \<le> length xs \<Longrightarrow> isel xs (- 1) = Inr (xs ! (length xs - 1))"
  by (simp add: isel_def py_index_def nat_diff_distrib' of_nat_diff)

lemma isel_last2: "2 \<le> length xs \<Longrightarrow> isel xs (- 2) = Inr (xs ! (length xs - 2))"
  by (simp add: isel_def py_index_def nat_diff_distrib' of_nat_diff)

lemma post_stagger_vertical_const:
  assumes "map_of ic ''CF1'' = Some cf1" "map_of ic ''CF2'' = Some cf2"
      "map_of ic ''CF3'' = Some cf3" "map_of ic ''CFN'' = Some cfn"
      "map_of ic ''CFN1'' = Some cfn1" "3 \<le> length data"
  shows "post_stagger ds ''bottom_top'' rename (Some data) cyclic ic =
           Inr (if rename then ''bottom_top_stag'' else ''bottom_top'',
                (ds @ [None])
                  [0 := vadd (vadd (vmul cf1 (data ! 0)) (vmul cf2 (data ! 1))) (vmul cf3 (data ! 2)),
                   length ds := vadd (vmul cfn (data ! (length data - 1)))
                                     (vmul cfn1 (data ! (length data - 2)))])"
proof -
  have ne: "ic \<noteq> []" using assms(1) by auto
  have i0: "isel data 0 = Inr (data ! 0)" using assms(6) by (auto simp: isel_def py_index_def)
  have i1: "isel data 1 = Inr (data ! 1)" using assms(6) by (simp add: isel_def py_index_def)
  have i2: "isel data 2 = Inr (data ! 2)" using assms(6) by (simp add: isel_def py_index_def)
  have l1: "isel data (- 1) = Inr (data ! (length data - 1))" using assms(6) by (simp add: isel_last)
  have l2: "isel data (- 2) = Inr (data ! (length data - 2))" using assms(6) by (simp add: isel_last2)
  show ?thesis
    unfolding post_stagger_def Let_def
    by (simp add: ne getitem_Some[OF assms(1)] getitem_Some[OF assms(2)] getitem_Some[OF assms(3)]
        getitem_Some[OF assms(4)] getitem_Some[OF assms(5)] data_isel_def i0 i1 i2 l1 l2 ebind_def)
qed

lemma length_vstag [simp]: "length (vstag data FNM FNP) = length data"
  by (simp add: vstag_def)

lemma vstag_first: "data \<noteq> [] \<Longrightarrow> vstag data FNM FNP ! 0 = None"
  by (simp add: vstag_def fadd_nth fweight_nth shift_up_nth)

lemma stagger_vertical_const:
  assumes "map_of ic ''CF1'' = Some cf1" "map_of ic ''CF2'' = Some cf2"
      "map_of ic ''CF3'' = Some cf3" "map_of ic ''CFN'' = Some cfn"
      "map_of ic ''CFN1'' = Some cfn1" "3 \<le> length data"
  shows "\<exists>d out. stagger data ''bottom_top'' FNM FNP rename cyclic ic = Inr (d, out)
           \<and> length out = length data + 1
           \<and> out ! 0 = vadd (vadd (vmul cf1 (data ! 0)) (vmul cf2 (data ! 1))) (vmul cf3 (data ! 2))
           \<and> out ! length data = vadd (vmul cfn (data ! (length data - 1)))
                                       (vmul cfn1 (data ! (length data - 2)))"
proof -
  let ?b = "vadd (vadd (vmul cf1 (data ! 0)) (vmul cf2 (data ! 1))) (vmul cf3 (data ! 2))"
  let ?t = "vadd (vmul cfn (data ! (length data - 1))) (vmul cfn1 (data ! (length data - 2)))"
  let ?L = "(vstag data FNM FNP @ [None])[0 := ?b, length (vstag data FNM FNP) := ?t]"
  have eq: "stagger data ''bottom_top'' FNM FNP rename cyclic ic =
          Inr (if rename then ''bottom_top_stag'' else ''bottom_top'', ?L)"
    unfolding stagger_def Let_def vstag_def[symmetric]
    by (simp add: post_stagger_vertical_const[OF assms])
  have n: "0 < length data" using assms(6) by (cases data) auto
  have P: "length ?L = length data + 1 \<and> ?L ! 0 = ?b \<and> ?L ! length data = ?t"
    using n by (simp add: nth_list_update)
  from P show ?thesis unfolding eq by blast
qed

lemma stagger_vertical_plain:
  "\<exists>d out. stagger data ''bottom_top'' FNM FNP rename cyclic [] = Inr (d, out)
      \<and> length out = length data + 1 \<and> out ! 0 = None \<and> out ! length data = None"
proof -
  have "stagger data ''bottom_top'' FNM FNP rename cyclic [] =
          Inr (if rename then ''bottom_top_stag'' else ''bottom_top'', vstag data FNM FNP @ [None])"
    by (simp add: stagger_def vstag_def post_stagger_vertical_plain)
  moreover have "(vstag data FNM FNP @ [None]) ! 0 = None"
    by (cases "data = []") (simp_all add: nth_append vstag_first)
  ultimately show ?thesis by (simp add: nth_append)
qed

lemma diff_vertical_plain:
  "\<exists>d out. diff data ''bottom_top'' rename cyclic = Inr (d, out)
      \<and> length out = length data + 1 \<and> out ! 0 = None \<and> out ! length data = None"
proof -
  have m: "''bottom_top'' \<in> set [''bottom_top'', ''z'', ''bottom_top_stag'', ''z_stag'', ''Time'']"
    by simp
  have ns: "\<not> str_contains ''_stag'' ''bottom_top''" by (simp add: str_contains_def)
  from diff_vertical[OF m, of data rename cyclic] ns
  obtain d where d: "diff data ''bottom_top'' rename cyclic = Inr (d, fsub data (shift_up data) @ [None])"
    by auto
  have "(fsub data (shift_up data) @ [None]) ! 0 = None"
    by (cases "data = []") (simp_all add: nth_append backward_first)
  with d show ?thesis by (simp add: nth_append)
qed

lemma periodic_fill:
  "length ((ds @ [None])[length ds := (ds @ [None]) ! 0]) = length ds + 1
   \<and> (ds @ [None])[length ds := (ds @ [None]) ! 0] ! length ds
       = (ds @ [None])[length ds := (ds @ [None]) ! 0] ! 0"
  by (cases ds) simp_all

lemma missing_fill:
  "length ((ds @ [None])[0 := None]) = length ds + 1
   \<and> (ds @ [None])[0 := None] ! 0 = None
   \<and> (ds @ [None])[0 := None] ! length ds = None"
  by (cases ds) (simp_all add: nth_append)

lemma post_stagger_horizontal_fill:
  assumes "dimn \<noteq> ''bottom_top''"
  shows "\<exists>d out. post_stagger ds dimn rename dat cyclic ic = Inr (d, out)
           \<and> length out = length ds + 1
           \<and> (if cyclic then out ! length ds = out ! 0
               else out ! 0 = None \<and> out ! length ds = None)"
proof -
  let ?L = "if cyclic then (ds @ [None])[length ds := (ds @ [None]) ! 0]
            else (ds @ [None])[0 := None]"
  have P: "length ?L = length ds + 1
           \<and> (if cyclic then ?L ! length ds = ?L ! 0 else ?L ! 0 = None \<and> ?L ! length ds = None)"
    using periodic_fill[of ds] missing_fill[of ds] by (cases cyclic) simp_all
  from P show ?thesis unfolding post_stagger_horizontal[OF assms] by blast
qed

lemma stagger_horizontal_fill:
  assumes "dimn \<noteq> ''bottom_top''"
  shows "\<exists>d out. stagger data dimn FNM FNP rename cyclic ic = Inr (d, out)
           \<and> length out = length data + 1
           \<and> (if cyclic then out ! length data = out ! 0
               else out ! 0 = None \<and> out ! length data = None)"
proof -
  let ?ds = "fscale (1 / 2) (fadd data (roll data))"
  have eq: "stagger data dimn FNM FNP rename cyclic ic =
              post_stagger ?ds dimn rename (Some data) cyclic ic"
    using assms by (simp add: stagger_def)
  have l: "length ?ds = length data" by simp
  show ?thesis
    using post_stagger_horizontal_fill[OF assms, of ?ds rename "Some data" cyclic ic]
    unfolding eq l .
qed

lemma diff_horizontal_fill:
  assumes "dimn \<noteq> ''bottom_top''" "\<not> str_contains ''_stag'' dimn"
  shows "\<exists>d out. diff data dimn rename cyclic = Inr (d, out)
           \<and> length out = length data + 1
           \<and> (if cyclic then out ! length data = out ! 0
               else out ! 0 = None \<and> out ! length data = None)"
proof -
  let ?ds = "diff_raw data dimn cyclic"
  have eq: "diff data dimn rename cyclic = post_stagger ?ds dimn rename None cyclic []"
    using assms(2) by (simp add: diff_def)
  have l: "length ?ds = length data"
    by (simp add: diff_raw_eq)
  show ?thesis
    using post_stagger_horizontal_fill[OF assms(1), of ?ds rename None cyclic "[]"]
    unfolding eq l .
qed

text \<open>
  Claim C3 (as amended). On \<open>bottom_top\<close>, \<open>stagger\<close> with the extrapolation
  constants fills the bottom with the three-point extrapolation
  \<open>CF1 data[0] + CF2 data[1] + CF3 data[2]\<close> and the top with the two-point
  extrapolation \<open>CFN data[-1] + CFN1 data[-2]\<close>; without constants, as in every call
  \<open>diff\<close> makes, bottom and top stay missing. On any other axis \<open>stagger\<close>, and
  \<open>diff\<close> going from unstaggered to staggered, set the upper boundary point equal to
  the lower one when \<open>cyclic\<close> holds, and leave both boundary points missing otherwise.
\<close>

theorem boundary_fill:
  "(map_of ic ''CF1'' = Some cf1 \<and> map_of ic ''CF2'' = Some cf2 \<and> map_of ic ''CF3'' = Some cf3
      \<and> map_of ic ''CFN'' = Some cfn \<and> map_of ic ''CFN1'' = Some cfn1 \<and> 3 \<le> length data \<longrightarrow>
      (\<exists>d out. stagger data ''bottom_top'' FNM FNP rename cyclic ic = Inr (d, out)
           \<and> length out = length data + 1
           \<and> out ! 0 = vadd (vadd (vmul cf1 (data ! 0)) (vmul cf2 (data ! 1))) (vmul cf3 (data ! 2))
           \<and> out ! length data = vadd (vmul cfn (data ! (length data - 1)))
                                       (vmul cfn1 (data ! (length data - 2)))))
   \<and> (\<exists>d out. stagger data ''bottom_top'' FNM FNP rename cyclic [] = Inr (d, out)
         \<and> length out = length data + 1 \<and> out ! 0 = None \<and> out ! length data = None)
   \<and> (\<exists>d out. diff data ''bottom_top'' rename cyclic = Inr (d, out)
         \<and> length out = length data + 1 \<and> out ! 0 = None \<and> out ! length data = None)
   \<and> (dimn \<noteq> ''bottom_top'' \<longrightarrow>
        (\<exists>d out. stagger data dimn FNM FNP rename cyclic ic = Inr (d, out)
           \<and> length out = length data + 1
           \<and> (if cyclic then out ! length data = out ! 0
               else out ! 0 = None \<and> out ! length data = None)))
   \<and> (dimn \<noteq> ''bottom_top'' \<and> \<not> str_contains ''_stag'' dimn \<longrightarrow>
        (\<exists>d out. diff data dimn rename cyclic = Inr (d, out)
           \<and> length out = length data + 1
           \<and> (if cyclic then out ! length data = out ! 0
               else out ! 0 = None \<and> out ! length data = None)))"
proof (intro conjI impI)
  assume "map_of ic ''CF1'' = Some cf1 \<and> map_of ic ''CF2'' = Some cf2 \<and> map_of ic ''CF3'' = Some cf3
      \<and> map_of ic ''CFN'' = Some cfn \<and> map_of ic ''CFN1'' = Some cfn1 \<and> 3 \<le> length data"
  then show "\<exists>d out. stagger data ''bottom_top'' FNM FNP rename cyclic ic = Inr (d, out)
           \<and> length out = length data + 1
           \<and> out ! 0 = vadd (vadd (vmul cf1 (data ! 0)) (vmul cf2 (data ! 1))) (vmul cf3 (data ! 2))
           \<and> out ! length data = vadd (vmul cfn (data ! (length data - 1)))
                                       (vmul cfn1 (data ! (length data - 2)))"
    using stagger_vertical_const[of ic cf1 cf2 cf3 cfn cfn1 data FNM FNP rename cyclic] by blast
next
  show "\<exists>d out. stagger data ''bottom_top'' FNM FNP rename cyclic [] = Inr (d, out)
         \<and> length out = length data + 1 \<and> out ! 0 = None \<and> out ! length data = None"
    by (rule stagger_vertical_plain)
next
  show "\<exists>d out. diff data ''bottom_top'' rename cyclic = Inr (d, out)
         \<and> length out = length data + 1 \<and> out ! 0 = None \<and> out ! length data = None"
    by (rule diff_vertical_plain)
next
  assume "dimn \<noteq> ''bottom_top''"
  then show "\<exists>d out. stagger data dimn FNM FNP rename cyclic ic = Inr (d, out)
           \<and> length out = length data + 1
           \<and> (if cyclic then out ! length data = out ! 0
               else out ! 0 = None \<and> out ! length data = None)"
    by (rule stagger_horizontal_fill)
next
  assume "dimn \<noteq> ''bottom_top'' \<and> \<not> str_contains ''_stag'' dimn"
  then show "\<exists>d out. diff data dimn rename cyclic = Inr (d, out)
           \<and> length out = length data + 1
           \<and> (if cyclic then out ! length data = out ! 0
               else out ! 0 = None \<and> out ! length data = None)"
    using diff_horizontal_fill[of dimn data rename cyclic] by blast
qed


theorem boundary_fill_witness:
  "(map_of [(''CF1'', Some 1), (''CF2'', Some 2), (''CF3'', Some 3), (''CFN'', Some 4),
            (''CFN1'', Some (5::real))] ''CF1'' = Some (Some 1)
    \<and> 3 \<le> length [Some 1, Some 2, Some (4::real)]
    \<and> ''x'' \<noteq> ''bottom_top'' \<and> \<not> str_contains ''_stag'' ''x'')
   \<and> (\<exists>d out. stagger [Some 1, Some 2, Some 4] ''bottom_top'' (\<lambda>i. Some (1 / 2))
                  (\<lambda>i. Some (1 / 2)) True True
                  [(''CF1'', Some 1), (''CF2'', Some 2), (''CF3'', Some 3), (''CFN'', Some 4),
                   (''CFN1'', Some 5)] = Inr (d, out)
          \<and> out ! 0 = Some 17 \<and> out ! 3 = Some 26)
   \<and> (\<exists>d out. stagger [Some 1, Some 2, Some 4] ''x'' (\<lambda>i. Some (1 / 2))
                  (\<lambda>i. Some (1 / 2)) True True
                  [(''CF1'', Some 1), (''CF2'', Some 2), (''CF3'', Some 3), (''CFN'', Some 4),
                   (''CFN1'', Some 5)] = Inr (d, out)
          \<and> out ! 3 = out ! 0)
   \<and> (\<exists>d out. diff [Some 1, Some 2, Some 4] ''x'' True True = Inr (d, out)
          \<and> out ! 3 = out ! 0)"
proof -
  let ?ic = "[(''CF1'', Some 1), (''CF2'', Some 2), (''CF3'', Some 3), (''CFN'', Some 4),
              (''CFN1'', Some (5::real))]"
  let ?data = "[Some 1, Some 2, Some (4::real)]"
  let ?w = "\<lambda>i::nat. Some (1 / 2 :: real)"
  have h: "map_of ?ic ''CF1'' = Some (Some 1) \<and> map_of ?ic ''CF2'' = Some (Some 2)
           \<and> map_of ?ic ''CF3'' = Some (Some 3) \<and> map_of ?ic ''CFN'' = Some (Some 4)
           \<and> map_of ?ic ''CFN1'' = Some (Some 5) \<and> 3 \<le> length ?data"
    by simp
  have hx: "''x'' \<noteq> ''bottom_top''" by simp
  have hs: "\<not> str_contains ''_stag'' ''x''" by (simp add: str_contains_def)
  note b = boundary_fill[of ?ic "Some 1" "Some 2" "Some 3" "Some 4" "Some 5" ?data ?w ?w True True "''x''"]
  from b h have "\<exists>d out. stagger ?data ''bottom_top'' ?w ?w True True ?ic = Inr (d, out)
           \<and> length out = length ?data + 1
           \<and> out ! 0 = vadd (vadd (vmul (Some 1) (?data ! 0)) (vmul (Some 2) (?data ! 1)))
                            (vmul (Some 3) (?data ! 2))
           \<and> out ! length ?data = vadd (vmul (Some 4) (?data ! (length ?data - 1)))
                                       (vmul (Some 5) (?data ! (length ?data - 2)))"
    by blast
  then have c1: "\<exists>d out. stagger ?data ''bottom_top'' ?w ?w True True ?ic = Inr (d, out)
          \<and> out ! 0 = Some 17 \<and> out ! 3 = Some 26"
    by (auto simp: eval_nat_numeral)
  from b hx have "\<exists>d out. stagger ?data ''x'' ?w ?w True True ?ic = Inr (d, out)
           \<and> length out = length ?data + 1
           \<and> (if True then out ! length ?data = out ! 0
               else out ! 0 = None \<and> out ! length ?data = None)"
    by blast
  then have c2: "\<exists>d out. stagger ?data ''x'' ?w ?w True True ?ic = Inr (d, out) \<and> out ! 3 = out ! 0"
    by (auto simp: eval_nat_numeral)
  from b hx hs have "\<exists>d out. diff ?data ''x'' True True = Inr (d, out)
           \<and> length out = length ?data + 1
           \<and> (if True then out ! length ?data = out ! 0
               else out ! 0 = None \<and> out ! length ?data = None)"
    by blast
  then have c3: "\<exists>d out. diff ?data ''x'' True True = Inr (d, out) \<and> out ! 3 = out ! 0"
    by (auto simp: eval_nat_numeral)
  from h hx hs c1 c2 c3 show ?thesis by blast
qed

text \<open>
  The claim as stated fails: \<open>diff\<close> along \<open>bottom_top\<close> passes no constants to
  \<open>post_stagger\<close> and leaves bottom and top missing; and the top that \<open>stagger\<close>
  extrapolates uses the last two points only (here \<open>8 + 4\<close>).
\<close>

theorem vertical_diff_not_extrapolated_counterexample:
  "diff [Some 1, Some 2, Some 4] ''bottom_top'' True False
     = Inr (''bottom_top_stag'', [None, Some 1, Some 2, None])
   \<and> stagger [Some 1, Some 2, Some 4, Some 8] ''bottom_top'' (\<lambda>i. Some (1 / 2))
        (\<lambda>i. Some (1 / 2)) True False
        [(''CF1'', Some 1), (''CF2'', Some 1), (''CF3'', Some 1), (''CFN'', Some 1),
         (''CFN1'', Some 1)]
     = Inr (''bottom_top_stag'', [Some 7, Some (3 / 2), Some 3, Some 6, Some 12])"
  by (simp add: diff_def diff_raw_def stagger_def post_stagger_def shift_up_def fsub_def fadd_def
      fweight_def str_contains_def getitem_def data_isel_def isel_def py_index_def ebind_def
      upt_rec)

subsection \<open>Tiles and their halo\<close>

lemma arange_step_pos:
  "0 < sz \<Longrightarrow> arange_step n sz = Inr (map (\<lambda>k. int k * sz) [0..<nchunks n sz])"
  by (simp add: arange_step_def nchunks_def)

lemma tile_iloc_halo:
  assumes "i < k"
  shows "tile_iloc dimn (map (\<lambda>j. int j * sz) [0..<k]) i = halo_tile dimn sz k i"
proof -
  have b: "map (\<lambda>j. int j * sz) [0..<k] ! i = int i * sz" using assms by simp
  have b1: "map (\<lambda>j. int j * sz) [0..<k] ! (i + 1) = int (i + 1) * sz" if "i \<noteq> k - 1"
  proof -
    have "i + 1 < k" using assms that by arith
    then show ?thesis by (simp only: nth_map length_upt nth_upt diff_zero add_0)
  qed
  show ?thesis
    unfolding tile_iloc_def halo_tile_def Let_def
    using b b1 by (simp del: of_nat_Suc of_nat_add)
qed

lemma tiles_of_axis:
  "map (tile_iloc dimn (map (\<lambda>j. int j * sz) [0..<k])) [0..<k] = map (halo_tile dimn sz k) [0..<k]"
  by (rule map_cong) (simp_all add: tile_iloc_halo)

lemma create_tiles_loop_eq:
  assumes "\<forall>c \<in> set rest. 0 < snd c \<and> map_of ds (fst c) \<noteq> None"
  shows "create_tiles_loop ds rest (tiles, st, pr) =
           Inr (tiles @ map (axis_tiles ds) (filter (\<lambda>c. \<not> one_chunk ds c) rest),
                filter (\<lambda>c. fst c \<notin> fst ` set (filter (one_chunk ds) rest)) st,
                pr @ map (\<lambda>c. one_chunk_message (fst c)) (filter (one_chunk ds) rest))"
  using assms
proof (induction rest arbitrary: tiles st pr)
  case Nil
  show ?case by simp
next
  case (Cons c rest)
  obtain dimn sz where c: "c = (dimn, sz)" by (cases c)
  from Cons.prems c obtain n where n: "map_of ds dimn = Some n" and sz: "0 < sz" by auto
  have rest: "\<forall>c \<in> set rest. 0 < snd c \<and> map_of ds (fst c) \<noteq> None"
    using Cons.prems by simp
  have dl: "dim_len ds dimn = n" using n by (simp add: dim_len_def)
  note ar = arange_step_pos[OF sz, of n]
  show ?case
  proof (cases "nchunks n sz = 1")
    case True
    then have oc: "one_chunk ds (dimn, sz)" by (simp add: one_chunk_def dl)
    have "create_tiles_loop ds (c # rest) (tiles, st, pr) =
            create_tiles_loop ds rest
              (tiles, filter (\<lambda>(k, v). k \<noteq> dimn) st, pr @ [one_chunk_message dimn])"
      unfolding c using n ar True by simp
    also note Cons.IH[OF rest]
    finally show ?thesis
      unfolding c using oc by (simp add: case_prod_unfold conj_commute)
  next
    case False
    then have oc: "\<not> one_chunk ds (dimn, sz)" by (simp add: one_chunk_def dl)
    have at: "axis_tiles ds (dimn, sz) = map (halo_tile dimn sz (nchunks n sz)) [0..<nchunks n sz]"
      by (simp add: axis_tiles_def dl Let_def)
    have "create_tiles_loop ds (c # rest) (tiles, st, pr) =
            create_tiles_loop ds rest (tiles @ [axis_tiles ds (dimn, sz)], st, pr)"
      unfolding c at using n ar False by (simp add: tiles_of_axis)
    also note Cons.IH[OF rest]
    finally show ?thesis
      unfolding c using oc by simp
  qed
qed

lemma dropped_keys:
  assumes "distinct (map fst chunks)"
  shows "filter (\<lambda>c. fst c \<notin> fst ` set (filter P chunks)) chunks = filter (\<lambda>c. \<not> P c) chunks"
proof (rule filter_cong[OF refl])
  fix c assume c: "c \<in> set chunks"
  have "fst c \<in> fst ` set (filter P chunks) \<longleftrightarrow> P c"
  proof
    assume "fst c \<in> fst ` set (filter P chunks)"
    then obtain c' where c': "c' \<in> set chunks" "P c'" "fst c' = fst c" by auto
    from assms c c' have "c' = c" by (metis eq_key_imp_eq_value prod.collapse)
    with c' show "P c" by simp
  next
    assume "P c" with c show "fst c \<in> fst ` set (filter P chunks)" by auto
  qed
  then show "(fst c \<notin> fst ` set (filter P chunks)) = (\<not> P c)" by simp
qed

text \<open>
  Claim C6 (as amended). For chunk lengths that are positive and dimensions that are
  in the data, \<open>create_tiles\<close> returns the Cartesian product of the per-axis
  partitions of the axes that split into more than one chunk. Tile \<open>i\<close> of an axis
  starts one point before its first index \<open>i * size\<close>, for the axis and for its
  staggered variant alike, unless it is the first tile (no halo at the domain start); it
  ends one point after its last index for the axis and two points after it for the
  staggered variant, unless it is the last tile (no halo at the domain end). An axis
  that gives a single chunk is removed from \<open>chunks\<close>, a message is printed, and it
  contributes no tile dimension.
\<close>

theorem create_tiles_halo:
  assumes "list_all (\<lambda>c. 0 < snd c \<and> map_of ds (fst c) \<noteq> None) chunks"
      and "distinct (map fst chunks)"
  shows "create_tiles ds chunks =
           Inr (product_lists (map (axis_tiles ds) (filter (\<lambda>c. \<not> one_chunk ds c) chunks)),
                filter (\<lambda>c. \<not> one_chunk ds c) chunks,
                ''Create tasks'' # map (\<lambda>c. one_chunk_message (fst c))
                                     (filter (one_chunk ds) chunks))"
proof -
  have a: "\<forall>c \<in> set chunks. 0 < snd c \<and> map_of ds (fst c) \<noteq> None"
    using assms(1) by (simp add: list_all_iff)
  show ?thesis
    unfolding create_tiles_def create_tiles_loop_eq[OF a] dropped_keys[OF assms(2)]
    by simp
qed

lemma upt_2: "[0..<2] = [0, 1]"
  by (simp add: upt_rec)

theorem create_tiles_halo_witness:
  "list_all (\<lambda>c. 0 < snd c \<and> map_of [(''x'', 4), (''y'', 3::nat)] (fst c) \<noteq> None)
     [(''x'', 2), (''y'', 5::int)]
   \<and> distinct (map fst [(''x'', 2), (''y'', 5::int)])
   \<and> create_tiles [(''x'', 4), (''y'', 3)] [(''x'', 2), (''y'', 5)]
      = Inr ([[[(''x'', (None, Some 3)), (''x_stag'', (None, Some 4))]],
              [[(''x'', (Some 1, None)), (''x_stag'', (Some 1, None))]]],
             [(''x'', 2)],
             [''Create tasks'',
              ''Chunking in y-direction leads to one chunk only. Deleting y from chunks dictionary.''])"
proof -
  let ?ds = "[(''x'', 4), (''y'', 3::nat)]"
  let ?ch = "[(''x'', 2), (''y'', 5::int)]"
  have h1: "list_all (\<lambda>c. 0 < snd c \<and> map_of ?ds (fst c) \<noteq> None) ?ch" by simp
  have h2: "distinct (map fst ?ch)" by simp
  have nx: "nchunks (dim_len ?ds ''x'') 2 = 2" by (simp add: nchunks_def dim_len_def)
  have ny: "nchunks (dim_len ?ds ''y'') 5 = 1" by (simp add: nchunks_def dim_len_def)
  have ax: "axis_tiles ?ds (''x'', 2) =
              [[(''x'', (None, Some 3)), (''x_stag'', (None, Some 4))],
               [(''x'', (Some 1, None)), (''x_stag'', (Some 1, None))]]"
    by (simp add: axis_tiles_def nx upt_2 halo_tile_def)
  from create_tiles_halo[OF h1 h2] h1 h2 show ?thesis
    by (simp add: one_chunk_def nx ny ax one_chunk_message_def)
qed

text \<open>
  The claim as stated fails for the staggered variant at the lower side of an interior
  boundary: an axis of 4 points in chunks of 2 has its second tile begin at index 2, and
  the slice of \<open>x_stag\<close> for that tile starts at index 1, one halo point, not two.
\<close>

theorem staggered_lower_halo_counterexample:
  "create_tiles [(''x'', 4)] [(''x'', 2)]
     = Inr ([[[(''x'', (None, Some 3)), (''x_stag'', (None, Some 4))]],
             [[(''x'', (Some 1, None)), (''x_stag'', (Some 1, None))]]],
            [(''x'', 2)], [''Create tasks''])"
  by (simp add: create_tiles_def arange_step_def upt_2 tile_iloc_def)

subsection \<open>The resolved-turbulent component\<close>

lemma ebind_Inr: "ebind m f = Inr y \<Longrightarrow> \<exists>x. m = Inr x \<and> f x = Inr y"
  by (cases m) (simp_all add: ebind_def)

lemma set_residual_Inr:
  assumes "set_residual f D = Inr f'"
  shows "f' adv_r = f adv_r" "f' mean = f mean"
    "arr_op vsub (f adv_r D) (f mean D) = Inr (f' trb_r D)"
    "\<And>D'. D' \<noteq> D \<Longrightarrow> f' trb_r D' = f trb_r D'"
proof -
  from ebind_Inr[OF assms[unfolded set_residual_def]]
  obtain r where r: "arr_op vsub (f adv_r D) (f mean D) = Inr r"
    and f': "f' = (\<lambda>c D'. if c = trb_r \<and> D' = D then r else f c D')"
    by auto
  show "f' adv_r = f adv_r" by (rule ext) (simp add: f')
  show "f' mean = f mean" by (rule ext) (simp add: f')
  show "arr_op vsub (f adv_r D) (f mean D) = Inr (f' trb_r D)" by (simp add: f' r)
  show "\<And>D'. D' \<noteq> D \<Longrightarrow> f' trb_r D' = f trb_r D'" by (simp add: f')
qed

lemma set_residual_is_residual:
  assumes "set_residual f D = Inr f'"
  shows "is_residual f' D" "\<And>D'. is_residual f D' \<Longrightarrow> is_residual f' D'"
proof -
  note s = set_residual_Inr[OF assms]
  show "is_residual f' D" unfolding is_residual_def s(1,2) by (rule s(3))
  fix D' assume a: "is_residual f D'"
  show "is_residual f' D'"
  proof (cases "D' = D")
    case True
    then show ?thesis unfolding is_residual_def s(1,2) using s(3) by simp
  next
    case False
    then show ?thesis using a unfolding is_residual_def s(1,2) by (simp add: s(4))
  qed
qed

lemma residuals_Inr:
  assumes "residuals ds (flux, adv) = Inr (flux', adv')"
  shows "flux' adv_r = flux adv_r \<and> flux' mean = flux mean
       \<and> adv' adv_r = adv adv_r \<and> adv' mean = adv mean
       \<and> (\<forall>D. (\<exists>d \<in> set ds. dir_of_key d = Some D) \<or> (is_residual flux D \<and> is_residual adv D)
               \<longrightarrow> is_residual flux' D \<and> is_residual adv' D)
       \<and> (\<forall>D. (\<forall>d \<in> set ds. dir_of_key d \<noteq> Some D)
               \<longrightarrow> flux' trb_r D = flux trb_r D \<and> adv' trb_r D = adv trb_r D)"
  using assms
proof (induction ds arbitrary: flux adv)
  case Nil
  then show ?case by simp
next
  case (Cons d ds)
  from Cons.prems obtain D where D: "dir_of_key d = Some D"
    by (cases "dir_of_key d") simp_all
  from Cons.prems D obtain f1 where f1: "set_residual flux D = Inr f1"
    by (cases "set_residual flux D") simp_all
  from Cons.prems D f1 obtain a1 where a1: "set_residual adv D = Inr a1"
    by (cases "set_residual adv D") simp_all
  from Cons.prems D f1 a1 have rest: "residuals ds (f1, a1) = Inr (flux', adv')" by simp
  note ih = Cons.IH[OF rest]
  note sf = set_residual_Inr[OF f1] and sa = set_residual_Inr[OF a1]
  note rf = set_residual_is_residual[OF f1] and ra = set_residual_is_residual[OF a1]
  have 1: "flux' adv_r = flux adv_r \<and> flux' mean = flux mean
       \<and> adv' adv_r = adv adv_r \<and> adv' mean = adv mean"
    using ih sf(1,2) sa(1,2) by simp
  have 2: "is_residual flux' D' \<and> is_residual adv' D'"
    if "(\<exists>d' \<in> set (d # ds). dir_of_key d' = Some D') \<or> (is_residual flux D' \<and> is_residual adv D')"
    for D'
  proof -
    from that have "(\<exists>d' \<in> set ds. dir_of_key d' = Some D') \<or> (is_residual f1 D' \<and> is_residual a1 D')"
      using D rf ra by auto
    with ih show ?thesis by blast
  qed
  have 3: "flux' trb_r D' = flux trb_r D' \<and> adv' trb_r D' = adv trb_r D'"
    if "\<forall>d' \<in> set (d # ds). dir_of_key d' \<noteq> Some D'" for D'
  proof -
    from that D have ne: "D' \<noteq> D" and r: "\<forall>d' \<in> set ds. dir_of_key d' \<noteq> Some D'" by auto
    from ih r have "flux' trb_r D' = f1 trb_r D' \<and> adv' trb_r D' = a1 trb_r D'" by blast
    then show ?thesis using sf(4)[OF ne] sa(4)[OF ne] by simp
  qed
  from 1 2 3 show ?case by blast
qed

lemma all_dirs_keyed: "\<exists>d \<in> set [''X'', ''Y'', ''Z'']. dir_of_key d = Some D"
  by (cases D) (simp_all add: dir_of_key_def)

lemma adv_components_Inr:
  assumes "adv_components hdiv avg_xy dat VAR grd havg adims dz_out trb = Inr (flux, adv)"
  shows "flux mean = mean_flux dat"
    and "flux adv_r = (if havg then (\<lambda>D. avg_xy (tot_flux dat D)) else tot_flux dat)"
    and "\<exists>a. adv_i hdiv avg_xy dat VAR grd havg adims dz_out adv_r (tot_flux dat) = Inr a
            \<and> adv adv_r = (if havg then (\<lambda>D. avg_xy (a D)) else a)"
    and "adv_i hdiv avg_xy dat VAR grd havg adims dz_out mean (mean_flux dat) = Inr (adv mean)"
    and "\<And>t. trb = Some t \<Longrightarrow> flux trb_r = t
            \<and> adv_i hdiv avg_xy dat VAR grd havg adims dz_out trb_r t = Inr (adv trb_r)"
proof -
  let ?tend = "adv_i hdiv avg_xy dat VAR grd havg adims dz_out"
  from ebind_Inr[OF assms[unfolded adv_components_def Let_def]]
  obtain a_adv where a1: "?tend adv_r (tot_flux dat) = Inr a_adv"
    and r1: "ebind (?tend mean (mean_flux dat)) (\<lambda>a_mean.
         ebind (case trb of None \<Rightarrow> Inr None
                | Some t \<Rightarrow> ebind (?tend trb_r t) (\<lambda>a. Inr (Some a))) (\<lambda>a_trb.
           Inr (concat_comp (if havg then (\<lambda>D. avg_xy (tot_flux dat D)) else tot_flux dat)
                  (mean_flux dat) trb,
                concat_comp (if havg then (\<lambda>D. avg_xy (a_adv D)) else a_adv) a_mean a_trb)))
         = Inr (flux, adv)"
    by blast
  from ebind_Inr[OF r1]
  obtain a_mean where a2: "?tend mean (mean_flux dat) = Inr a_mean"
    and r2: "ebind (case trb of None \<Rightarrow> Inr None
                | Some t \<Rightarrow> ebind (?tend trb_r t) (\<lambda>a. Inr (Some a))) (\<lambda>a_trb.
           Inr (concat_comp (if havg then (\<lambda>D. avg_xy (tot_flux dat D)) else tot_flux dat)
                  (mean_flux dat) trb,
                concat_comp (if havg then (\<lambda>D. avg_xy (a_adv D)) else a_adv) a_mean a_trb))
         = Inr (flux, adv)"
    by blast
  from ebind_Inr[OF r2]
  obtain a_trb where a3: "(case trb of None \<Rightarrow> Inr None
                | Some t \<Rightarrow> ebind (?tend trb_r t) (\<lambda>a. Inr (Some a))) = Inr a_trb"
    and fl: "flux = concat_comp (if havg then (\<lambda>D. avg_xy (tot_flux dat D)) else tot_flux dat)
                  (mean_flux dat) trb"
    and ad: "adv = concat_comp (if havg then (\<lambda>D. avg_xy (a_adv D)) else a_adv) a_mean a_trb"
    by auto
  show "flux mean = mean_flux dat" by (simp add: fl concat_comp_def)
  show "flux adv_r = (if havg then (\<lambda>D. avg_xy (tot_flux dat D)) else tot_flux dat)"
    by (simp add: fl concat_comp_def)
  show "\<exists>a. ?tend adv_r (tot_flux dat) = Inr a
            \<and> adv adv_r = (if havg then (\<lambda>D. avg_xy (a D)) else a)"
    using a1 by (simp add: ad concat_comp_def)
  show "?tend mean (mean_flux dat) = Inr (adv mean)"
    using a2 by (simp add: ad concat_comp_def)
  fix t assume t: "trb = Some t"
  from a3 t obtain a where "?tend trb_r t = Inr a" "a_trb = Some a"
    by (auto dest!: ebind_Inr)
  then show "flux trb_r = t \<and> ?tend trb_r t = Inr (adv trb_r)"
    by (simp add: fl ad concat_comp_def t)
qed


text \<open>
  Claim C1 (as amended). When \<open>adv_tend\<close> returns and the data hold no explicit
  turbulent fluxes, the resolved-turbulent flux and tendency of every direction are the
  resolved-total component minus the mean component. When explicit turbulent fluxes are
  in the data, this holds for the averaging directions if horizontal averaging is on;
  in every other direction the turbulent flux returned is the explicit flux and the
  turbulent tendency is the tendency computed from it, whatever total and mean are.
\<close>

theorem turbulent_component_residual_or_explicit:
  assumes "adv_tend hdiv avg_xy dat VAR grd havg adims cart dzx dzz = Inr (flux, adv)"
  shows "(explicit_trb (dat_mean dat) VAR cart = None \<longrightarrow>
            (\<forall>D. is_residual flux D \<and> is_residual adv D))
       \<and> (\<forall>t. explicit_trb (dat_mean dat) VAR cart = Some t \<and> havg \<longrightarrow>
            (\<forall>d \<in> set adims. \<forall>D. dir_of_key (str_upper d) = Some D \<longrightarrow>
                is_residual flux D \<and> is_residual adv D))
       \<and> (\<forall>t D. explicit_trb (dat_mean dat) VAR cart = Some t
                \<and> (havg \<longrightarrow> (\<forall>d \<in> set adims. dir_of_key (str_upper d) \<noteq> Some D)) \<longrightarrow>
            flux trb_r D = t D
            \<and> (\<exists>a. adv_i hdiv avg_xy dat VAR grd havg adims (dzx \<or> dzz) trb_r t = Inr a
                   \<and> adv trb_r D = a D))"
proof -
  let ?trb = "explicit_trb (dat_mean dat) VAR cart"
  from ebind_Inr[OF assms[unfolded adv_tend_def Let_def]]
  obtain fa where comp: "adv_components hdiv avg_xy dat VAR grd havg adims (dzx \<or> dzz) ?trb = Inr fa"
    and fin: "(case ?trb of
             None \<Rightarrow> residuals [''X'', ''Y'', ''Z''] fa
           | Some t \<Rightarrow> if havg then residuals (map str_upper adims) fa else Inr fa)
          = Inr (flux, adv)"
    by blast
  obtain flux0 adv0 where fa: "fa = (flux0, adv0)" by (cases fa)
  note c = adv_components_Inr[OF comp[unfolded fa]]
  have 1: "\<forall>D. is_residual flux D \<and> is_residual adv D" if n: "?trb = None"
  proof -
    from fin n fa have "residuals [''X'', ''Y'', ''Z''] (flux0, adv0) = Inr (flux, adv)" by simp
    from residuals_Inr[OF this] all_dirs_keyed show ?thesis by blast
  qed
  have 2: "\<forall>d \<in> set adims. \<forall>D. dir_of_key (str_upper d) = Some D \<longrightarrow>
                is_residual flux D \<and> is_residual adv D"
    if t: "?trb = Some t" and h: havg for t
  proof -
    from fin t h fa have "residuals (map str_upper adims) (flux0, adv0) = Inr (flux, adv)" by simp
    from residuals_Inr[OF this] show ?thesis by auto
  qed
  have 3: "flux trb_r D = t D
            \<and> (\<exists>a. adv_i hdiv avg_xy dat VAR grd havg adims (dzx \<or> dzz) trb_r t = Inr a
                   \<and> adv trb_r D = a D)"
    if t: "?trb = Some t" and h: "havg \<longrightarrow> (\<forall>d \<in> set adims. dir_of_key (str_upper d) \<noteq> Some D)"
    for t D
  proof -
    have same: "flux trb_r D = flux0 trb_r D \<and> adv trb_r D = adv0 trb_r D"
    proof (cases havg)
      case True
      with fin t fa have r: "residuals (map str_upper adims) (flux0, adv0) = Inr (flux, adv)"
        by simp
      from h True have "\<forall>d \<in> set (map str_upper adims). dir_of_key d \<noteq> Some D" by simp
      with residuals_Inr[OF r] show ?thesis by blast
    next
      case False
      with fin t fa show ?thesis by simp
    qed
    from c(5)[OF t] same show ?thesis by auto
  qed
  from 1 2 3 show ?thesis by blast
qed


lemmas adv_eval =
  adv_tend_def adv_components_def adv_i_def vertical_flux_tend_def arr_op_def ebind_def
  explicit_trb_def set_residual_def dir_of_key_def diff_def diff_raw_def post_stagger_def
  str_contains_def strip_stag_def shift_up_def fsub_def isel_def iset_def py_index_def
  concat_comp_def g_def is_residual_def

text \<open>
  The claim as stated fails when explicit turbulent fluxes are supplied: the returned
  turbulent flux is the supplied one (\<open>5, 7\<close>) while total minus mean is \<open>1, 2\<close>,
  and the turbulent tendency differs from the difference of the tendencies as well.
\<close>

theorem explicit_turbulent_flux_counterexample:
  "(case adv_tend (\<lambda>c D f. f) (\<lambda>a. a)
          \<lparr>dat_mean = [(''FTU_TRB_MEAN'', Col [Some 5]), (''FTV_TRB_MEAN'', Col [Some 5]),
                        (''FTW_TRB_MEAN'', Col [Some 5, Some 7])],
             tot_flux = (\<lambda>D. case D of Z \<Rightarrow> Col [Some 1, Some 3] | _ \<Rightarrow> Col [Some 1]),
             mean_flux = (\<lambda>D. case D of Z \<Rightarrow> Col [Some 0, Some 1] | _ \<Rightarrow> Col [Some 0]),
             rhod8z = Col [Some 1, Some 1]\<rparr>
          ''T''
          \<lparr>DN = [Some 1, None], DNW = [Some 1], MU_STAG_MEAN = Col [Some 1],
             RHOD_STAG_MEAN = Col [Some 1]\<rparr>
          False [] True False False of
      Inl err \<Rightarrow> False
    | Inr (flux, adv) \<Rightarrow>
        flux trb_r Z = Col [Some 5, Some 7]
        \<and> arr_op vsub (flux adv_r Z) (flux mean Z) = Inr (Col [Some 1, Some 2])
        \<and> adv trb_r Z = Col [Some (981 / 50)]
        \<and> arr_op vsub (adv adv_r Z) (adv mean Z) = Inr (Col [Some (981 / 100)]))"
  by (simp add: adv_eval)

theorem turbulent_component_residual_or_explicit_witness:
  "explicit_trb [] ''T'' True = None
   \<and> (case adv_tend (\<lambda>c D f. f) (\<lambda>a. a)
          \<lparr>dat_mean = [],
             tot_flux = (\<lambda>D. case D of Z \<Rightarrow> Col [Some 1, Some 3] | _ \<Rightarrow> Col [Some 1]),
             mean_flux = (\<lambda>D. case D of Z \<Rightarrow> Col [Some 0, Some 1] | _ \<Rightarrow> Col [Some 0]),
             rhod8z = Col [Some 1, Some 1]\<rparr>
          ''T''
          \<lparr>DN = [Some 1, None], DNW = [Some 1], MU_STAG_MEAN = Col [Some 1],
             RHOD_STAG_MEAN = Col [Some 1]\<rparr>
          False [] True False False of
      Inl err \<Rightarrow> False
    | Inr (flux, adv) \<Rightarrow> is_residual flux Z \<and> is_residual adv Z)"
proof -
  let ?dat = "\<lparr>dat_mean = [],
             tot_flux = (\<lambda>D. case D of Z \<Rightarrow> Col [Some 1, Some 3] | _ \<Rightarrow> Col [Some 1]),
             mean_flux = (\<lambda>D. case D of Z \<Rightarrow> Col [Some 0, Some 1] | _ \<Rightarrow> Col [Some 0]),
             rhod8z = Col [Some 1, Some 1]\<rparr>"
  let ?grd = "\<lparr>DN = [Some 1, None], DNW = [Some 1], MU_STAG_MEAN = Col [Some 1],
             RHOD_STAG_MEAN = Col [Some 1]\<rparr>"
  have n: "explicit_trb (dat_mean ?dat) ''T'' True = None" by (simp add: explicit_trb_def)
  have "\<exists>flux adv. adv_tend (\<lambda>c D f. f) (\<lambda>a. a) ?dat ''T'' ?grd False [] True False False
          = Inr (flux, adv)"
    by (simp add: adv_eval)
  then obtain flux adv where
    r: "adv_tend (\<lambda>c D f. f) (\<lambda>a. a) ?dat ''T'' ?grd False [] True False False = Inr (flux, adv)"
    by blast
  from turbulent_component_residual_or_explicit[OF r] n
  have "is_residual flux Z \<and> is_residual adv Z" by blast
  with n show ?thesis unfolding r by simp
qed

subsection \<open>The vertical tendency of the vertical-velocity budget\<close>




lemma iset_first: "xs \<noteq> [] \<Longrightarrow> iset xs 0 v = Inr (xs[0 := v])"
  by (auto simp: iset_def py_index_def)












end
